theory Spec2Isabelle
  imports Complex_Main "HOL-Library.Char_ord" "HOL-Library.List_Lexorder"
    "HOL-Library.Product_Lexorder"
begin

section \<open>Values\<close>

text \<open>
  The programs work on pandas tables. A table cell is an integer, a number, a string, a
  timestamp (nanoseconds since the epoch, as pandas stores it) or the missing value
  (\<^verbatim>\<open>NaN\<close>, \<^verbatim>\<open>NaT\<close>, \<^verbatim>\<open>None\<close>).

  Numbers are exact rationals: rounding, overflow and signed zeros of binary floating
  point are outside this development. What floating point adds to the rationals and the
  programs can observe (the infinities and \<^verbatim>\<open>NaN\<close>) is kept, in the type \<open>fnum\<close>.
\<close>

datatype cell = IntV int | NumV rat | StrV string | TsV int | Null

datatype fnum = Fin rat | PInf | NInf | NaN

datatype error =
  ValueError | KeyError | TypeError | AttributeError | ParseError | ZeroDivisionError

text \<open>Sequencing of computations that may raise: the first error ends the computation.\<close>

definition and_then :: "error + 'a \<Rightarrow> ('a \<Rightarrow> error + 'b) \<Rightarrow> error + 'b" where
  "and_then m f = (case m of Inl e \<Rightarrow> Inl e | Inr x \<Rightarrow> f x)"

text \<open>Arithmetic of numpy's float64 scalars: a division by zero raises nothing.\<close>

fun fsub :: "fnum \<Rightarrow> fnum \<Rightarrow> fnum" where
  "fsub NaN _ = NaN"
| "fsub _ NaN = NaN"
| "fsub (Fin a) (Fin b) = Fin (a - b)"
| "fsub (Fin a) PInf = NInf"
| "fsub (Fin a) NInf = PInf"
| "fsub PInf PInf = NaN"
| "fsub PInf _ = PInf"
| "fsub NInf NInf = NaN"
| "fsub NInf _ = NInf"

fun fdiv :: "fnum \<Rightarrow> fnum \<Rightarrow> fnum" where
  "fdiv NaN _ = NaN"
| "fdiv _ NaN = NaN"
| "fdiv (Fin a) (Fin b) =
     (if b \<noteq> 0 then Fin (a / b)
      else if a = 0 then NaN
      else if 0 < a then PInf else NInf)"
| "fdiv (Fin a) _ = Fin 0"
| "fdiv PInf (Fin b) = (if 0 \<le> b then PInf else NInf)"
| "fdiv NInf (Fin b) = (if 0 \<le> b then NInf else PInf)"
| "fdiv _ _ = NaN"

fun fmul :: "fnum \<Rightarrow> fnum \<Rightarrow> fnum" where
  "fmul NaN _ = NaN"
| "fmul _ NaN = NaN"
| "fmul (Fin a) (Fin b) = Fin (a * b)"
| "fmul (Fin a) PInf = (if a = 0 then NaN else if 0 < a then PInf else NInf)"
| "fmul (Fin a) NInf = (if a = 0 then NaN else if 0 < a then NInf else PInf)"
| "fmul PInf (Fin b) = (if b = 0 then NaN else if 0 < b then PInf else NInf)"
| "fmul NInf (Fin b) = (if b = 0 then NaN else if 0 < b then NInf else PInf)"
| "fmul PInf PInf = PInf"
| "fmul PInf NInf = NInf"
| "fmul NInf PInf = NInf"
| "fmul NInf NInf = PInf"

text \<open>Comparison of floats: every comparison with \<^verbatim>\<open>NaN\<close> is false.\<close>

fun fle :: "fnum \<Rightarrow> fnum \<Rightarrow> bool" where
  "fle NaN _ = False"
| "fle _ NaN = False"
| "fle (Fin a) (Fin b) = (a \<le> b)"
| "fle NInf _ = True"
| "fle _ PInf = True"
| "fle _ _ = False"

section \<open>data\_loader.py\<close>

subsection \<open>Delivery categories\<close>

text \<open>
  \<^verbatim>\<open>_categorize_delivery_speed(days: float)\<close>: \<^verbatim>\<open>pd.isna\<close> first, then the two
  comparisons in the order of the source.
\<close>

definition categorize_delivery_speed :: "fnum \<Rightarrow> string" where
  "categorize_delivery_speed days =
     (if days = NaN then ''Unknown''
      else if fle days (Fin 3) then ''1-3 days''
      else if fle days (Fin 7) then ''4-7 days''
      else ''8+ days'')"

subsection \<open>Calendar\<close>

text \<open>
  A pandas timestamp is a count of nanoseconds since 1970-01-01; \<^verbatim>\<open>.dt.year\<close>,
  \<^verbatim>\<open>.dt.month\<close> and \<^verbatim>\<open>.dt.day\<close> read the proleptic Gregorian date of that instant,
  and a difference of two timestamps is a count of nanoseconds whose \<^verbatim>\<open>.days\<close> is its
  floor in days. Timestamps stay inside pandas' range, where no difference overflows.
\<close>

definition ns_per_day :: int where
  "ns_per_day = 86400 * 1000000000"

definition days_from_civil :: "int \<Rightarrow> int \<Rightarrow> int \<Rightarrow> int" where
  "days_from_civil y m d =
     (let y' = (if m \<le> 2 then y - 1 else y);
          era = y' div 400;
          yoe = y' - era * 400;
          doy = (153 * (if 2 < m then m - 3 else m + 9) + 2) div 5 + d - 1;
          doe = yoe * 365 + yoe div 4 - yoe div 100 + doy
      in era * 146097 + doe - 719468)"

definition civil_from_days :: "int \<Rightarrow> int \<times> int \<times> int" where
  "civil_from_days z0 =
     (let z = z0 + 719468;
          era = z div 146097;
          doe = z - era * 146097;
          yoe = (doe - doe div 1460 + doe div 36524 - doe div 146096) div 365;
          y = yoe + era * 400;
          doy = doe - (365 * yoe + yoe div 4 - yoe div 100);
          mp = (5 * doy + 2) div 153;
          d = doy - (153 * mp + 2) div 5 + 1;
          m = (if mp < 10 then mp + 3 else mp - 9)
      in (if m \<le> 2 then y + 1 else y, m, d))"

definition ts_year :: "int \<Rightarrow> int" where
  "ts_year t = fst (civil_from_days (t div ns_per_day))"

definition ts_month :: "int \<Rightarrow> int" where
  "ts_month t = fst (snd (civil_from_days (t div ns_per_day)))"

definition ts_day :: "int \<Rightarrow> int" where
  "ts_day t = snd (snd (civil_from_days (t div ns_per_day)))"

definition ts_quarter :: "int \<Rightarrow> int" where
  "ts_quarter t = (ts_month t - 1) div 3 + 1"

text \<open>The timestamp of a date and time of day, as \<^verbatim>\<open>pd.to_datetime\<close> reads an ISO string.\<close>

definition timestamp :: "int \<Rightarrow> int \<Rightarrow> int \<Rightarrow> int \<Rightarrow> int \<Rightarrow> int \<Rightarrow> int" where
  "timestamp y m d hh mm ss =
     (days_from_civil y m d * 86400 + hh * 3600 + mm * 60 + ss) * 1000000000"

subsection \<open>Tables\<close>

text \<open>
  A \<^verbatim>\<open>DataFrame\<close>: the column names in order, and the rows in order, each with its index
  label and one cell per column. \<open>wf_df\<close> is the invariant every \<^verbatim>\<open>DataFrame\<close> has.
\<close>

type_synonym row = "int \<times> cell list"

record dataframe =
  columns :: "string list"
  rows :: "row list"

definition wf_df :: "dataframe \<Rightarrow> bool" where
  "wf_df df = list_all (\<lambda>r. length (snd r) = length (columns df)) (rows df)"

definition cell_of :: "string list \<Rightarrow> row \<Rightarrow> string \<Rightarrow> cell" where
  "cell_of cols r c = (case map_of (zip cols (snd r)) c of Some v \<Rightarrow> v | None \<Rightarrow> Null)"

text \<open>\<^verbatim>\<open>df[c]\<close> for a column \<open>c\<close> of the table: its cells, one per row.\<close>

definition column_cells :: "dataframe \<Rightarrow> string \<Rightarrow> cell list" where
  "column_cells df c = map (\<lambda>r. cell_of (columns df) r c) (rows df)"

fun position :: "string list \<Rightarrow> string \<Rightarrow> nat" where
  "position [] c = 0"
| "position (x # xs) c = (if x = c then 0 else Suc (position xs c))"

text \<open>\<^verbatim>\<open>df[c] = values\<close>: overwrites the column when the table has it, appends it otherwise.\<close>

definition set_column :: "dataframe \<Rightarrow> string \<Rightarrow> cell list \<Rightarrow> dataframe" where
  "set_column df c vs =
     (if c \<in> set (columns df)
      then df\<lparr>rows := map2 (\<lambda>r v. (fst r, (snd r)[position (columns df) c := v])) (rows df) vs\<rparr>
      else df\<lparr>columns := columns df @ [c],
              rows := map2 (\<lambda>r v. (fst r, snd r @ [v])) (rows df) vs\<rparr>)"

text \<open>\<^verbatim>\<open>df[[c1, ..., cn]]\<close>: \<^verbatim>\<open>KeyError\<close> when the table lacks one of the columns.\<close>

definition select_columns :: "dataframe \<Rightarrow> string list \<Rightarrow> error + dataframe" where
  "select_columns df cs =
     (if list_all (\<lambda>c. c \<in> set (columns df)) cs
      then Inr \<lparr>columns = cs,
                rows = map (\<lambda>r. (fst r, map (cell_of (columns df) r) cs)) (rows df)\<rparr>
      else Inl KeyError)"

text \<open>
  \<^verbatim>\<open>pd.merge(left, right, on=key, how='inner')\<close>: one row for every pair of a left and a
  right row with equal keys, in the order of the left rows and, for one left row, of the
  right rows; the key column once; a fresh index \<open>0, 1, ...\<close>. A column name the two
  tables share (the key apart) gets the suffixes \<^verbatim>\<open>_x\<close> and \<^verbatim>\<open>_y\<close>. Missing keys match
  each other, as in pandas.
\<close>

definition merge_columns :: "string list \<Rightarrow> string list \<Rightarrow> string \<Rightarrow> string list" where
  "merge_columns lc rc on =
     map (\<lambda>c. if c \<noteq> on \<and> c \<in> set rc then c @ ''_x'' else c) lc @
     map (\<lambda>c. if c \<in> set lc then c @ ''_y'' else c) (filter (\<lambda>c. c \<noteq> on) rc)"

definition cells_without :: "string list \<Rightarrow> string \<Rightarrow> cell list \<Rightarrow> cell list" where
  "cells_without cols on cells = map snd (filter (\<lambda>p. fst p \<noteq> on) (zip cols cells))"

definition range_index :: "cell list list \<Rightarrow> row list" where
  "range_index css = zip (map int [0..<length css]) css"

definition matches :: "dataframe \<Rightarrow> dataframe \<Rightarrow> string \<Rightarrow> row \<Rightarrow> row list" where
  "matches left right on l =
     filter (\<lambda>r. cell_of (columns right) r on = cell_of (columns left) l on) (rows right)"

definition merge_inner :: "dataframe \<Rightarrow> dataframe \<Rightarrow> string \<Rightarrow> error + dataframe" where
  "merge_inner left right on =
     (if on \<in> set (columns left) \<and> on \<in> set (columns right)
      then Inr \<lparr>columns = merge_columns (columns left) (columns right) on,
                rows = range_index (concat (map (\<lambda>l.
                  map (\<lambda>r. snd l @ cells_without (columns right) on (snd r))
                    (matches left right on l)) (rows left)))\<rparr>
      else Inl KeyError)"

subsection \<open>Dates and time features\<close>

text \<open>
  \<^verbatim>\<open>pd.to_datetime\<close> is a parameter \<open>conv\<close> of the functions that call it: what it makes of
  one cell, a timestamp, the missing value, or an error for a value it cannot parse.
  A column is converted as a whole, so one bad value fails the call.
\<close>

fun sequence :: "(error + 'a) list \<Rightarrow> error + 'a list" where
  "sequence [] = Inr []"
| "sequence (m # ms) = and_then m (\<lambda>x. and_then (sequence ms) (\<lambda>xs. Inr (x # xs)))"

fun preprocess_dates ::
  "(cell \<Rightarrow> error + cell) \<Rightarrow> dataframe \<Rightarrow> string list \<Rightarrow> error + dataframe" where
  "preprocess_dates conv df_copy [] = Inr df_copy"
| "preprocess_dates conv df_copy (col # date_columns) =
     (if col \<in> set (columns df_copy)
      then and_then (sequence (map conv (column_cells df_copy col)))
             (\<lambda>vs. preprocess_dates conv (set_column df_copy col vs) date_columns)
      else preprocess_dates conv df_copy date_columns)"

text \<open>
  The \<^verbatim>\<open>.dt\<close> accessor exists on a column of timestamps only. A column of whole numbers
  with a missing value is a float column in pandas, which \<open>int_series\<close> follows.
\<close>

fun dt_value :: "cell \<Rightarrow> error + int option" where
  "dt_value (TsV t) = Inr (Some t)"
| "dt_value Null = Inr None"
| "dt_value _ = Inl AttributeError"

definition int_series :: "int option list \<Rightarrow> cell list" where
  "int_series vs =
     (if None \<in> set vs
      then map (\<lambda>v. case v of None \<Rightarrow> Null | Some n \<Rightarrow> NumV (of_int n)) vs
      else map (\<lambda>v. case v of None \<Rightarrow> Null | Some n \<Rightarrow> IntV n) vs)"

definition dt_field :: "(int \<Rightarrow> int) \<Rightarrow> dataframe \<Rightarrow> string \<Rightarrow> error + cell list" where
  "dt_field f df c =
     and_then (sequence (map dt_value (column_cells df c)))
       (\<lambda>ts. Inr (int_series (map (map_option f) ts)))"

definition add_time_features :: "dataframe \<Rightarrow> string \<Rightarrow> error + dataframe" where
  "add_time_features df date_column =
     (if date_column \<in> set (columns df) then
        and_then (dt_field ts_year df date_column) (\<lambda>ys.
          let df1 = set_column df (date_column @ ''_year'') ys in
        and_then (dt_field ts_month df1 date_column) (\<lambda>ms.
          let df2 = set_column df1 (date_column @ ''_month'') ms in
        and_then (dt_field ts_quarter df2 date_column) (\<lambda>qs.
          let df3 = set_column df2 (date_column @ ''_quarter'') qs in
        and_then (dt_field ts_day df3 date_column) (\<lambda>ds.
          Inr (set_column df3 (date_column @ ''_day'') ds)))))
      else Inr df)"

subsection \<open>The sales table\<close>

record loader =
  data_path :: string
  datasets :: "string \<rightharpoonup> dataframe"

definition create_sales_dataset :: "(cell \<Rightarrow> error + cell) \<Rightarrow> loader \<Rightarrow> error + dataframe" where
  "create_sales_dataset conv self =
     (case (datasets self ''order_items'', datasets self ''orders'') of
        (Some order_items, Some orders) \<Rightarrow>
          and_then (select_columns order_items
            [''order_id'', ''order_item_id'', ''product_id'', ''price'', ''freight_value''])
          (\<lambda>left. and_then (select_columns orders
            [''order_id'', ''customer_id'', ''order_status'',
             ''order_purchase_timestamp'', ''order_delivered_customer_date''])
          (\<lambda>right. and_then (merge_inner left right ''order_id'')
          (\<lambda>sales_data. and_then (preprocess_dates conv sales_data
            [''order_purchase_timestamp'', ''order_delivered_customer_date''])
          (\<lambda>sales_data. add_time_features sales_data ''order_purchase_timestamp''))))
      | _ \<Rightarrow> Inl ValueError)"

subsection \<open>Delivery metrics\<close>

text \<open>
  The difference of two timestamp columns, in whole days: missing where either side is
  missing, \<^verbatim>\<open>TypeError\<close> where a column holds something else than timestamps.
\<close>

fun delivery_days :: "cell \<Rightarrow> cell \<Rightarrow> error + int option" where
  "delivery_days (TsV d) (TsV p) = Inr (Some ((d - p) div ns_per_day))"
| "delivery_days (TsV d) Null = Inr None"
| "delivery_days Null (TsV p) = Inr None"
| "delivery_days Null Null = Inr None"
| "delivery_days _ _ = Inl TypeError"

fun fnum_of_cell :: "cell \<Rightarrow> fnum" where
  "fnum_of_cell (IntV n) = Fin (of_int n)"
| "fnum_of_cell (NumV q) = Fin q"
| "fnum_of_cell _ = NaN"

definition add_delivery_metrics :: "dataframe \<Rightarrow> error + dataframe" where
  "add_delivery_metrics sales_data =
     (if ''order_delivered_customer_date'' \<in> set (columns sales_data) \<and>
         ''order_purchase_timestamp'' \<in> set (columns sales_data)
      then
        and_then (sequence (map2 delivery_days
            (column_cells sales_data ''order_delivered_customer_date'')
            (column_cells sales_data ''order_purchase_timestamp'')))
        (\<lambda>days.
          let df1 = set_column sales_data ''delivery_speed_days'' (int_series days);
              df2 = set_column df1 ''delivery_category''
                      (map (\<lambda>v. StrV (categorize_delivery_speed (fnum_of_cell v)))
                         (column_cells df1 ''delivery_speed_days''))
          in Inr df2)
      else Inr sales_data)"

subsection \<open>Filtering by date range\<close>

text \<open>
  \<^verbatim>\<open>df[df[c] >= bound]\<close>: the comparison of a column with an integer is false at a
  missing value and a \<^verbatim>\<open>TypeError\<close> for a column of strings or timestamps; the rows
  where it is true are kept, with their index labels.
\<close>

fun cell_ge :: "cell \<Rightarrow> int \<Rightarrow> bool option" where
  "cell_ge (IntV n) b = Some (b \<le> n)"
| "cell_ge (NumV q) b = Some (of_int b \<le> q)"
| "cell_ge Null b = Some False"
| "cell_ge _ b = None"

fun cell_le :: "cell \<Rightarrow> int \<Rightarrow> bool option" where
  "cell_le (IntV n) b = Some (n \<le> b)"
| "cell_le (NumV q) b = Some (q \<le> of_int b)"
| "cell_le Null b = Some False"
| "cell_le _ b = None"

definition boolean_index ::
  "(cell \<Rightarrow> int \<Rightarrow> bool option) \<Rightarrow> string \<Rightarrow> int \<Rightarrow> dataframe \<Rightarrow> error + dataframe" where
  "boolean_index cmp c b df =
     (if list_ex (\<lambda>r. cmp (cell_of (columns df) r c) b = None) (rows df)
      then Inl TypeError
      else Inr (df\<lparr>rows := filter (\<lambda>r. cmp (cell_of (columns df) r c) b = Some True) (rows df)\<rparr>))"

text \<open>
  A bound is used when it is truthy: \<^verbatim>\<open>None\<close> and \<^verbatim>\<open>0\<close> are not.
\<close>

definition truthy :: "int option \<Rightarrow> bool" where
  "truthy b = (case b of None \<Rightarrow> False | Some v \<Rightarrow> v \<noteq> 0)"

text \<open>
  Tables are objects in a store, and a variable holds a reference. \<^verbatim>\<open>df.copy()\<close> and
  \<^verbatim>\<open>df[mask]\<close> each make a new object; an assignment to the local variable
  \<^verbatim>\<open>df_filtered\<close> changes the reference it holds and no object.
\<close>

type_synonym store = "dataframe list"

definition new_object :: "store \<Rightarrow> dataframe \<Rightarrow> store \<times> nat" where
  "new_object h d = (h @ [d], length h)"

definition bound_step ::
  "int option \<Rightarrow> string \<Rightarrow> (cell \<Rightarrow> int \<Rightarrow> bool option) \<Rightarrow> store \<times> nat \<Rightarrow> error + store \<times> nat" where
  "bound_step bound col cmp s =
     (case s of (h, df_filtered) \<Rightarrow>
        if truthy bound \<and> col \<in> set (columns (h ! df_filtered))
        then and_then (boolean_index cmp col (the bound) (h ! df_filtered))
               (\<lambda>d. Inr (new_object h d))
        else Inr (h, df_filtered))"

definition filter_by_date_range ::
  "store \<Rightarrow> nat \<Rightarrow> string \<Rightarrow> int option \<Rightarrow> int option \<Rightarrow> int option \<Rightarrow> int option
     \<Rightarrow> error + store \<times> nat" where
  "filter_by_date_range h df date_column start_year end_year start_month end_month =
     (let s0 = new_object h (h ! df);
          year_col = date_column @ ''_year'';
          month_col = date_column @ ''_month''
      in and_then (bound_step start_year year_col cell_ge s0)
        (\<lambda>s1. and_then (bound_step end_year year_col cell_le s1)
        (\<lambda>s2. and_then (bound_step start_month month_col cell_ge s2)
        (\<lambda>s3. bound_step end_month month_col cell_le s3))))"

section \<open>business\_metrics.py\<close>

subsection \<open>Python values and dictionaries\<close>

text \<open>
  A metric is a Python \<^verbatim>\<open>int\<close>, a Python \<^verbatim>\<open>float\<close> or a numpy \<^verbatim>\<open>float64\<close>. They differ
  in division: Python's \<^verbatim>\<open>/\<close> on its own numbers raises \<^verbatim>\<open>ZeroDivisionError\<close> at a zero
  divisor, numpy's gives an infinity or \<^verbatim>\<open>NaN\<close>.
\<close>

datatype pyval = PyInt int | PyFloat fnum | NpFloat fnum

fun to_fnum :: "pyval \<Rightarrow> fnum" where
  "to_fnum (PyInt n) = Fin (of_int n)"
| "to_fnum (PyFloat x) = x"
| "to_fnum (NpFloat x) = x"

fun is_numpy :: "pyval \<Rightarrow> bool" where
  "is_numpy (NpFloat x) = True"
| "is_numpy _ = False"

fun py_sub :: "pyval \<Rightarrow> pyval \<Rightarrow> pyval" where
  "py_sub (PyInt a) (PyInt b) = PyInt (a - b)"
| "py_sub a b =
     (if is_numpy a \<or> is_numpy b then NpFloat (fsub (to_fnum a) (to_fnum b))
      else PyFloat (fsub (to_fnum a) (to_fnum b)))"

definition py_div :: "pyval \<Rightarrow> pyval \<Rightarrow> error + pyval" where
  "py_div a b =
     (if is_numpy a \<or> is_numpy b then Inr (NpFloat (fdiv (to_fnum a) (to_fnum b)))
      else if to_fnum b = Fin 0 then Inl ZeroDivisionError
      else Inr (PyFloat (fdiv (to_fnum a) (to_fnum b))))"

fun py_mul :: "pyval \<Rightarrow> pyval \<Rightarrow> pyval" where
  "py_mul (PyInt a) (PyInt b) = PyInt (a * b)"
| "py_mul a b =
     (if is_numpy a \<or> is_numpy b then NpFloat (fmul (to_fnum a) (to_fnum b))
      else PyFloat (fmul (to_fnum a) (to_fnum b)))"

text \<open>
  A \<^verbatim>\<open>dict\<close> keeps its keys in insertion order; storing under a key it has replaces the
  value in place.
\<close>

type_synonym 'v dict = "(string \<times> 'v) list"

fun dict_set :: "'v dict \<Rightarrow> string \<Rightarrow> 'v \<Rightarrow> 'v dict" where
  "dict_set [] k v = [(k, v)]"
| "dict_set ((k', v') # d) k v =
     (if k' = k then (k, v) # d else (k', v') # dict_set d k v)"

definition dict_update :: "'v dict \<Rightarrow> (string \<times> 'v) list \<Rightarrow> 'v dict" where
  "dict_update d kvs = fold (\<lambda>kv d'. dict_set d' (fst kv) (snd kv)) kvs d"

definition dict_literal :: "(string \<times> 'v) list \<Rightarrow> 'v dict" where
  "dict_literal kvs = dict_update [] kvs"

definition dict_get :: "'v dict \<Rightarrow> string \<Rightarrow> error + 'v" where
  "dict_get d k = (case map_of d k of None \<Rightarrow> Inl KeyError | Some v \<Rightarrow> Inr v)"

subsection \<open>Sales rows and aggregates\<close>

text \<open>
  The metrics read five columns of the sales table, typed as the data model has them
  and without missing values: a sales table is a list of these rows.
\<close>

record sale =
  order_id :: string
  product_id :: string
  price :: rat
  order_purchase_timestamp_year :: int
  order_purchase_timestamp_month :: int

text \<open>\<^verbatim>\<open>groupby\<close> lists each key once, in ascending order.\<close>

definition group_keys :: "'k::linorder list \<Rightarrow> 'k list" where
  "group_keys ks = sort (remdups ks)"

text \<open>\<^verbatim>\<open>Series.mean()\<close>: \<^verbatim>\<open>NaN\<close> for an empty series.\<close>

definition mean :: "rat list \<Rightarrow> fnum" where
  "mean xs = (if xs = [] then NaN else Fin (sum_list xs / of_nat (length xs)))"

definition nunique :: "'a list \<Rightarrow> int" where
  "nunique xs = int (length (remdups xs))"

text \<open>\<^verbatim>\<open>data.groupby('order_id')['price'].sum()\<close>: the values, one per order.\<close>

definition order_totals :: "sale list \<Rightarrow> rat list" where
  "order_totals data =
     map (\<lambda>k. sum_list (map price (filter (\<lambda>r. order_id r = k) data)))
       (group_keys (map order_id data))"

subsection \<open>Revenue metrics\<close>

definition calculate_revenue_metrics ::
  "sale list \<Rightarrow> sale list option \<Rightarrow> string \<Rightarrow> string \<Rightarrow> error + pyval dict" where
  "calculate_revenue_metrics current_data comparison_data current_period comparison_period =
     (let metrics = dict_literal
            [(current_period @ ''_total_revenue'', NpFloat (Fin (sum_list (map price current_data)))),
             (current_period @ ''_avg_order_value'', NpFloat (mean (order_totals current_data))),
             (current_period @ ''_total_orders'', PyInt (nunique (map order_id current_data))),
             (current_period @ ''_total_items'', PyInt (int (length current_data)))]
      in case comparison_data of
           None \<Rightarrow> Inr metrics
         | Some comparison_data \<Rightarrow>
             let comp_revenue = NpFloat (Fin (sum_list (map price comparison_data)));
                 comp_aov = NpFloat (mean (order_totals comparison_data));
                 comp_orders = PyInt (nunique (map order_id comparison_data))
             in and_then (dict_get metrics (current_period @ ''_total_revenue''))
               (\<lambda>cur_revenue. and_then (py_div (py_sub cur_revenue comp_revenue) comp_revenue)
               (\<lambda>revenue_ratio. and_then (dict_get metrics (current_period @ ''_avg_order_value''))
               (\<lambda>cur_aov. and_then (py_div (py_sub cur_aov comp_aov) comp_aov)
               (\<lambda>aov_ratio. and_then (dict_get metrics (current_period @ ''_total_orders''))
               (\<lambda>cur_orders. and_then (py_div (py_sub cur_orders comp_orders) comp_orders)
               (\<lambda>order_ratio. Inr (dict_update metrics
                 [(comparison_period @ ''_total_revenue'', comp_revenue),
                  (comparison_period @ ''_avg_order_value'', comp_aov),
                  (comparison_period @ ''_total_orders'', comp_orders),
                  (comparison_period @ ''_total_items'', PyInt (int (length comparison_data))),
                  (''revenue_growth_rate'', py_mul revenue_ratio (PyInt 100)),
                  (''aov_growth_rate'', py_mul aov_ratio (PyInt 100)),
                  (''order_growth_rate'', py_mul order_ratio (PyInt 100))]))))))))"

subsection \<open>Monthly trends\<close>

text \<open>
  \<^verbatim>\<open>Series.pct_change()\<close>: each value divided by the one before it, minus one; the series
  shifted by one starts with \<^verbatim>\<open>NaN\<close>. The series it is applied to here hold no \<^verbatim>\<open>NaN\<close>,
  so its fill method changes nothing.
\<close>

definition pct_change :: "fnum list \<Rightarrow> fnum list" where
  "pct_change xs = map2 (\<lambda>cur prev. fsub (fdiv cur prev) (Fin 1)) xs (NaN # xs)"

record trend =
  month :: int
  revenue :: fnum
  orders :: int
  avg_order_value :: fnum
  revenue_growth :: fnum
  order_growth :: fnum
  aov_growth :: fnum

text \<open>
  \<^verbatim>\<open>groupby(['order_purchase_timestamp_month', 'order_id'])['price'].sum()\<close>: one sum per
  pair of a month and an order, the pairs in ascending order.
\<close>

definition month_order_totals :: "sale list \<Rightarrow> ((int \<times> string) \<times> rat) list" where
  "month_order_totals data =
     map (\<lambda>k. (k, sum_list (map price (filter
            (\<lambda>r. (order_purchase_timestamp_month r, order_id r) = k) data))))
       (group_keys (map (\<lambda>r. (order_purchase_timestamp_month r, order_id r)) data))"

definition calculate_monthly_trends :: "sale list \<Rightarrow> int option \<Rightarrow> trend list" where
  "calculate_monthly_trends data0 year =
     (let data = (if truthy year
                  then filter (\<lambda>r. order_purchase_timestamp_year r = the year) data0
                  else data0);
          months = group_keys (map order_purchase_timestamp_month data);
          monthly_revenue = map (\<lambda>m. Fin (sum_list (map price
              (filter (\<lambda>r. order_purchase_timestamp_month r = m) data)))) months;
          monthly_orders = map (\<lambda>m. nunique (map order_id
              (filter (\<lambda>r. order_purchase_timestamp_month r = m) data))) months;
          totals = month_order_totals data;
          monthly_aov = map (\<lambda>m. mean (map snd (filter (\<lambda>t. fst (fst t) = m) totals)))
              (group_keys (map (\<lambda>t. fst (fst t)) totals));
          revenue_growth = map (\<lambda>g. fmul g (Fin 100)) (pct_change monthly_revenue);
          order_growth = map (\<lambda>g. fmul g (Fin 100))
              (pct_change (map (\<lambda>n. Fin (of_int n)) monthly_orders));
          aov_growth = map (\<lambda>g. fmul g (Fin 100)) (pct_change monthly_aov)
      in map (\<lambda>i. \<lparr>month = months ! i, revenue = monthly_revenue ! i,
                    orders = monthly_orders ! i, avg_order_value = monthly_aov ! i,
                    revenue_growth = revenue_growth ! i, order_growth = order_growth ! i,
                    aov_growth = aov_growth ! i\<rparr>) [0..<length months])"

subsection \<open>Product performance\<close>

text \<open>
  The products table: its key column \<^verbatim>\<open>product_id\<close> (here \<open>prod_id\<close>, the sales table
  has the name) and the category, which may be missing.
\<close>

record product =
  prod_id :: string
  product_category_name :: "string option"

text \<open>
  \<^verbatim>\<open>pd.merge(sales, products, on='product_id', how='left')\<close>: every sales row, once per
  product with its key, and once with a missing category when no product has it.
\<close>

definition merge_left :: "sale list \<Rightarrow> product list \<Rightarrow> (sale \<times> string option) list" where
  "merge_left sales_data products_data =
     concat (map (\<lambda>s.
        case filter (\<lambda>p. prod_id p = product_id s) products_data of
          [] \<Rightarrow> [(s, None)]
        | ps \<Rightarrow> map (\<lambda>p. (s, product_category_name p)) ps) sales_data)"

text \<open>\<^verbatim>\<open>round(2)\<close>: to the nearest hundredth, a tie to the even one.\<close>

definition round_half_even :: "rat \<Rightarrow> int" where
  "round_half_even x =
     (let f = \<lfloor>x\<rfloor>; d = x - of_int f
      in if d < 1 / 2 then f
         else if 1 / 2 < d then f + 1
         else if even f then f else f + 1)"

definition round2 :: "rat \<Rightarrow> rat" where
  "round2 x = of_int (round_half_even (x * 100)) / 100"

fun fround2 :: "fnum \<Rightarrow> fnum" where
  "fround2 (Fin x) = Fin (round2 x)"
| "fround2 x = x"

record perf =
  name :: string
  total_revenue :: rat
  items_sold :: int
  unique_orders :: int

record category_perf = perf +
  avg_price :: fnum

text \<open>
  \<^verbatim>\<open>groupby\<close> leaves out the rows whose key is missing. The aggregates of one group:
  sum, mean and count of \<^verbatim>\<open>price\<close>, distinct count of \<^verbatim>\<open>order_id\<close>, rounded.
\<close>

definition category_metrics :: "(sale \<times> string option) list \<Rightarrow> category_perf list" where
  "category_metrics sales_products =
     map (\<lambda>c. let g = filter (\<lambda>r. snd r = Some c) sales_products in
            \<lparr>name = c,
             total_revenue = round2 (sum_list (map (price \<circ> fst) g)),
             items_sold = int (length g),
             unique_orders = nunique (map (order_id \<circ> fst) g),
             avg_price = fround2 (mean (map (price \<circ> fst) g))\<rparr>)
       (group_keys (concat (map (\<lambda>r. case snd r of None \<Rightarrow> [] | Some c \<Rightarrow> [c]) sales_products)))"

definition product_metrics :: "(sale \<times> string option) list \<Rightarrow> perf list" where
  "product_metrics sales_products =
     map (\<lambda>p. let g = filter (\<lambda>r. product_id (fst r) = p) sales_products in
            \<lparr>name = p,
             total_revenue = round2 (sum_list (map (price \<circ> fst) g)),
             items_sold = int (length g),
             unique_orders = nunique (map (order_id \<circ> fst) g)\<rparr>)
       (group_keys (map (product_id \<circ> fst) sales_products))"

text \<open>
  \<^verbatim>\<open>sort_values('total_revenue', ascending=False)\<close> orders the rows by the indices that
  the library's argsort returns for the column. The call names no sorting algorithm, and
  the default one is not stable, so the argsort is a parameter, known only to return
  the indices ordered by descending value (\<open>descending_argsort\<close>). \<open>stable_argsort\<close> is
  the one that keeps equal values in their order.
\<close>

definition sort_values_desc :: "(rat list \<Rightarrow> nat list) \<Rightarrow> ('r \<Rightarrow> rat) \<Rightarrow> 'r list \<Rightarrow> 'r list" where
  "sort_values_desc argsort key rs = map (\<lambda>i. rs ! i) (argsort (map key rs))"

definition descending_argsort :: "(rat list \<Rightarrow> nat list) \<Rightarrow> bool" where
  "descending_argsort argsort =
     (\<forall>vs. distinct (argsort vs) \<and> set (argsort vs) = {..<length vs} \<and>
           sorted_wrt (\<lambda>a b. b \<le> a) (map (\<lambda>i. vs ! i) (argsort vs)))"

definition stable_argsort :: "rat list \<Rightarrow> nat list" where
  "stable_argsort vs = map snd (sort_key (\<lambda>p. - fst p) (zip vs [0..<length vs]))"

text \<open>\<^verbatim>\<open>head(n)\<close>: the first \<open>n\<close> rows, or all but the last \<open>-n\<close> for a negative \<open>n\<close>.\<close>

definition head :: "int \<Rightarrow> 'a list \<Rightarrow> 'a list" where
  "head n xs = (if 0 \<le> n then take (nat n) xs else take (length xs - nat (- n)) xs)"

record product_analysis =
  category_performance :: "category_perf list"
  product_performance :: "perf list"

definition analyze_product_performance ::
  "(rat list \<Rightarrow> nat list) \<Rightarrow> sale list \<Rightarrow> product list \<Rightarrow> int \<Rightarrow> product_analysis" where
  "analyze_product_performance argsort sales_data products_data top_n =
     (let sales_products = merge_left sales_data products_data
      in \<lparr>category_performance =
             head top_n (sort_values_desc argsort total_revenue (category_metrics sales_products)),
          product_performance =
             head top_n (sort_values_desc argsort total_revenue (product_metrics sales_products))\<rparr>)"

section \<open>Auxiliary definitions\<close>

text \<open>A cell of a timestamp column: a timestamp or the missing value.\<close>

definition is_ts :: "cell \<Rightarrow> bool" where
  "is_ts c = (case c of TsV _ \<Rightarrow> True | Null \<Rightarrow> True | _ \<Rightarrow> False)"

text \<open>A cell of a numeric column: an integer, a number or the missing value.\<close>

definition is_numeric :: "cell \<Rightarrow> bool" where
  "is_numeric c = (case c of IntV _ \<Rightarrow> True | NumV _ \<Rightarrow> True | Null \<Rightarrow> True | _ \<Rightarrow> False)"

text \<open>
  The table of the specification's delivery examples: purchases on 2024-01-01, delivered
  on 2024-01-03, 2024-01-08, 2024-01-09 and not yet.
\<close>

definition delivery_example :: dataframe where
  "delivery_example =
     \<lparr>columns = [''order_purchase_timestamp'', ''order_delivered_customer_date''],
      rows = [(0, [TsV (timestamp 2024 1 1 0 0 0), TsV (timestamp 2024 1 3 0 0 0)]),
              (1, [TsV (timestamp 2024 1 1 0 0 0), TsV (timestamp 2024 1 8 0 0 0)]),
              (2, [TsV (timestamp 2024 1 1 0 0 0), TsV (timestamp 2024 1 9 0 0 0)]),
              (3, [TsV (timestamp 2024 1 1 0 0 0), Null])]\<rparr>"

text \<open>A table with a delivery before its purchase and one not yet delivered.\<close>

definition late_example :: dataframe where
  "late_example =
     \<lparr>columns = [''order_id'', ''order_purchase_timestamp'', ''order_delivered_customer_date''],
      rows = [(0, [StrV ''a'', TsV (timestamp 2023 6 1 10 30 0), TsV (timestamp 2023 6 4 9 0 0)]),
              (1, [StrV ''b'', TsV (timestamp 2023 6 1 10 30 0), TsV (timestamp 2023 6 20 0 0 0)]),
              (2, [StrV ''c'', TsV (timestamp 2023 6 5 0 0 0), TsV (timestamp 2023 6 3 0 0 0)]),
              (3, [StrV ''d'', TsV (timestamp 2023 6 5 0 0 0), Null])]\<rparr>"


text \<open>
  A program state of \<open>filter_by_date_range\<close>: the store and the reference that
  \<^verbatim>\<open>df_filtered\<close> holds. \<open>narrows s s'\<close>: the state \<open>s'\<close> has the objects of \<open>s\<close> and maybe
  more, and its table has the columns of the table of \<open>s\<close> and a selection of its rows.
\<close>

definition table_of :: "store \<times> nat \<Rightarrow> dataframe" where
  "table_of s = fst s ! snd s"

definition valid_ref :: "store \<times> nat \<Rightarrow> bool" where
  "valid_ref s = (snd s < length (fst s))"

definition narrows :: "store \<times> nat \<Rightarrow> store \<times> nat \<Rightarrow> bool" where
  "narrows s s' =
     (valid_ref s' \<and> (\<exists>ext. fst s' = fst s @ ext) \<and> snd s \<le> snd s' \<and>
      columns (table_of s') = columns (table_of s) \<and>
      (\<exists>P. rows (table_of s') = filter P (rows (table_of s))))"

text \<open>A table with the derived year and month columns, for four orders.\<close>

definition range_example :: dataframe where
  "range_example =
     \<lparr>columns = [''order_id'', ''price'', ''order_purchase_timestamp_year'',
                 ''order_purchase_timestamp_month''],
      rows = [(0, [StrV ''a'', NumV 10, IntV 2022, IntV 12]),
              (1, [StrV ''b'', NumV 20, IntV 2023, IntV 3]),
              (2, [StrV ''c'', NumV 30, IntV 2023, IntV 9]),
              (3, [StrV ''d'', NumV 40, IntV 2024, IntV 1])]\<rparr>"


text \<open>
  An instance of the conversion parameter, for the columns of strings that reading a
  CSV file gives: it reads \<^verbatim>\<open>YYYY-MM-DD\<close> and \<^verbatim>\<open>YYYY-MM-DD HH:MM:SS\<close>, and refuses a
  string that is not a date of the calendar.
\<close>

definition digit :: "char \<Rightarrow> int option" where
  "digit c = (let n = (of_char c :: nat) in if 48 \<le> n \<and> n \<le> 57 then Some (int n - 48) else None)"

definition number :: "string \<Rightarrow> int option" where
  "number s = foldl (\<lambda>acc c. case (acc, digit c) of (Some a, Some d) \<Rightarrow> Some (10 * a + d) | _ \<Rightarrow> None) (Some 0) s"

definition parse_iso :: "string \<Rightarrow> int option" where
  "parse_iso s =
     (if (length s = 10 \<or> length s = 19) \<and> s ! 4 = CHR ''-'' \<and> s ! 7 = CHR ''-'' then
        (case (number (take 4 s), number (take 2 (drop 5 s)), number (take 2 (drop 8 s))) of
           (Some y, Some m, Some d) \<Rightarrow>
             if civil_from_days (days_from_civil y m d) = (y, m, d) then
               (if length s = 10 then Some (timestamp y m d 0 0 0)
                else case (number (take 2 (drop 11 s)), number (take 2 (drop 14 s)),
                           number (take 2 (drop 17 s))) of
                  (Some hh, Some mm, Some ss) \<Rightarrow>
                    if s ! 10 = CHR '' '' \<and> s ! 13 = CHR '':'' \<and> s ! 16 = CHR '':'' \<and>
                       hh < 24 \<and> mm < 60 \<and> ss < 60
                    then Some (timestamp y m d hh mm ss) else None
                | _ \<Rightarrow> None)
             else None
         | _ \<Rightarrow> None)
      else None)"

fun to_datetime_iso :: "cell \<Rightarrow> error + cell" where
  "to_datetime_iso (StrV s) = (case parse_iso s of Some t \<Rightarrow> Inr (TsV t) | None \<Rightarrow> Inl ParseError)"
| "to_datetime_iso (TsV t) = Inr (TsV t)"
| "to_datetime_iso Null = Inr Null"
| "to_datetime_iso _ = Inl ParseError"

text \<open>
  The specification's scenario (one delivered order with an item of 100), with a second
  item in the same order.
\<close>

definition orders_example :: dataframe where
  "orders_example =
     \<lparr>columns = [''order_id'', ''customer_id'', ''order_status'',
                 ''order_purchase_timestamp'', ''order_delivered_customer_date''],
      rows = [(0, [IntV 1, StrV ''c1'', StrV ''delivered'', StrV ''2023-06-01'', StrV ''2023-06-04''])]\<rparr>"

definition order_items_example :: dataframe where
  "order_items_example =
     \<lparr>columns = [''order_id'', ''order_item_id'', ''product_id'', ''price'', ''freight_value''],
      rows = [(0, [IntV 1, IntV 1, StrV ''P1'', NumV 100, NumV 5]),
              (1, [IntV 1, IntV 2, StrV ''P2'', NumV 40, NumV 5])]\<rparr>"

definition loader_example :: loader where
  "loader_example =
     \<lparr>data_path = ''ecommerce_data/'',
      datasets = [''orders'' \<mapsto> orders_example, ''order_items'' \<mapsto> order_items_example]\<rparr>"

text \<open>
  Three orders and four items: order 1 has two items, order 2 one, order 3 none, and one
  item names an order 9 that the orders table lacks.
\<close>

definition shop_orders :: dataframe where
  "shop_orders =
     \<lparr>columns = [''order_id'', ''customer_id'', ''order_status'',
                 ''order_purchase_timestamp'', ''order_delivered_customer_date''],
      rows = [(0, [IntV 1, StrV ''c1'', StrV ''delivered'', StrV ''2023-06-01 09:15:00'', StrV ''2023-06-04 18:00:00'']),
              (1, [IntV 2, StrV ''c2'', StrV ''shipped'', StrV ''2023-07-10 12:00:00'', Null]),
              (2, [IntV 3, StrV ''c1'', StrV ''canceled'', StrV ''2023-08-02 08:30:00'', Null])]\<rparr>"

definition shop_order_items :: dataframe where
  "shop_order_items =
     \<lparr>columns = [''order_id'', ''order_item_id'', ''product_id'', ''price'', ''freight_value''],
      rows = [(0, [IntV 1, IntV 1, StrV ''P1'', NumV 100, NumV 5]),
              (1, [IntV 1, IntV 2, StrV ''P2'', NumV 40, NumV 5]),
              (2, [IntV 9, IntV 1, StrV ''P1'', NumV 100, NumV 7]),
              (3, [IntV 2, IntV 1, StrV ''P3'', NumV 15, NumV 2])]\<rparr>"

definition shop_loader :: loader where
  "shop_loader =
     \<lparr>data_path = ''ecommerce_data/'',
      datasets = [''orders'' \<mapsto> shop_orders, ''order_items'' \<mapsto> shop_order_items]\<rparr>"


text \<open>
  The growth rate as the source computes it, in numpy's arithmetic:
  \<^verbatim>\<open>((current - previous) / previous) * 100\<close>.
\<close>

definition growth_rate :: "fnum \<Rightarrow> fnum \<Rightarrow> fnum" where
  "growth_rate cur prev = fmul (fdiv (fsub cur prev) prev) (Fin 100)"

text \<open>
  Sales tables: two orders with three items; one order with two items; and one order
  with an item given away.
\<close>

definition sales_example :: "sale list" where
  "sales_example =
     [\<lparr>order_id = ''a'', product_id = ''P1'', price = 10,
       order_purchase_timestamp_year = 2023, order_purchase_timestamp_month = 6\<rparr>,
      \<lparr>order_id = ''a'', product_id = ''P2'', price = 20,
       order_purchase_timestamp_year = 2023, order_purchase_timestamp_month = 6\<rparr>,
      \<lparr>order_id = ''b'', product_id = ''P1'', price = 30,
       order_purchase_timestamp_year = 2023, order_purchase_timestamp_month = 8\<rparr>]"

definition previous_example :: "sale list" where
  "previous_example =
     [\<lparr>order_id = ''x'', product_id = ''P1'', price = 10,
       order_purchase_timestamp_year = 2022, order_purchase_timestamp_month = 6\<rparr>,
      \<lparr>order_id = ''x'', product_id = ''P3'', price = 5,
       order_purchase_timestamp_year = 2022, order_purchase_timestamp_month = 6\<rparr>]"

definition free_example :: "sale list" where
  "free_example =
     [\<lparr>order_id = ''g'', product_id = ''P0'', price = 0,
       order_purchase_timestamp_year = 2022, order_purchase_timestamp_month = 1\<rparr>]"


text \<open>
  The input of \<open>calculate_monthly_trends\<close> after its year filter, and the three
  aggregates of one month: price sum, distinct orders, and the mean of the sums per
  month and order.
\<close>

definition filtered_input :: "sale list \<Rightarrow> int option \<Rightarrow> sale list" where
  "filtered_input data0 year =
     (if truthy year then filter (\<lambda>r. order_purchase_timestamp_year r = the year) data0
      else data0)"

definition month_revenue :: "sale list \<Rightarrow> int \<Rightarrow> fnum" where
  "month_revenue data m =
     Fin (sum_list (map price (filter (\<lambda>r. order_purchase_timestamp_month r = m) data)))"

definition month_orders :: "sale list \<Rightarrow> int \<Rightarrow> int" where
  "month_orders data m =
     nunique (map order_id (filter (\<lambda>r. order_purchase_timestamp_month r = m) data))"

definition month_aov :: "sale list \<Rightarrow> int \<Rightarrow> fnum" where
  "month_aov data m =
     mean (map snd (filter (\<lambda>t. fst (fst t) = m) (month_order_totals data)))"

text \<open>Sales of March and August 2023, and of May 2022.\<close>

definition trend_example :: "sale list" where
  "trend_example =
     [\<lparr>order_id = ''a'', product_id = ''P1'', price = 10,
       order_purchase_timestamp_year = 2023, order_purchase_timestamp_month = 8\<rparr>,
      \<lparr>order_id = ''b'', product_id = ''P2'', price = 20,
       order_purchase_timestamp_year = 2023, order_purchase_timestamp_month = 3\<rparr>,
      \<lparr>order_id = ''b'', product_id = ''P1'', price = 30,
       order_purchase_timestamp_year = 2023, order_purchase_timestamp_month = 3\<rparr>,
      \<lparr>order_id = ''c'', product_id = ''P1'', price = 40,
       order_purchase_timestamp_year = 2023, order_purchase_timestamp_month = 3\<rparr>,
      \<lparr>order_id = ''d'', product_id = ''P3'', price = 70,
       order_purchase_timestamp_year = 2022, order_purchase_timestamp_month = 5\<rparr>]"


text \<open>
  A catalogue of six products, one of them without a category, and eight sales: five
  categories are sold, \<^verbatim>\<open>books\<close> and \<^verbatim>\<open>garden\<close> with the same revenue, and one sale is of
  a product \<^verbatim>\<open>P9\<close> that the catalogue lacks.
\<close>

definition sale_row :: "string \<Rightarrow> string \<Rightarrow> rat \<Rightarrow> sale" where
  "sale_row oid pid amount =
     \<lparr>order_id = oid, product_id = pid, price = amount,
      order_purchase_timestamp_year = 2023, order_purchase_timestamp_month = 6\<rparr>"

definition catalog_example :: "product list" where
  "catalog_example =
     [\<lparr>prod_id = ''P1'', product_category_name = Some ''toys''\<rparr>,
      \<lparr>prod_id = ''P2'', product_category_name = Some ''books''\<rparr>,
      \<lparr>prod_id = ''P3'', product_category_name = Some ''garden''\<rparr>,
      \<lparr>prod_id = ''P4'', product_category_name = Some ''music''\<rparr>,
      \<lparr>prod_id = ''P5'', product_category_name = Some ''tools''\<rparr>,
      \<lparr>prod_id = ''P6'', product_category_name = None\<rparr>]"

definition catalog_sales :: "sale list" where
  "catalog_sales =
     [sale_row ''o1'' ''P1'' 50, sale_row ''o1'' ''P2'' 30, sale_row ''o2'' ''P1'' 50,
      sale_row ''o3'' ''P3'' 30, sale_row ''o4'' ''P4'' 10, sale_row ''o5'' ''P5'' 5,
      sale_row ''o6'' ''P6'' 99, sale_row ''o7'' ''P9'' 77]"

definition unlisted_sales :: "sale list" where
  "unlisted_sales = [sale_row ''o7'' ''P9'' 77]"

text \<open>
  An argsort by descending value that is not stable: an ascending sort, reversed, which
  puts equal values in the reverse of their order.
\<close>

definition reversed_argsort :: "rat list \<Rightarrow> nat list" where
  "reversed_argsort vs = rev (map snd (sort_key fst (zip vs [0..<length vs])))"


section \<open>Facts about tables\<close>


lemma cell_of_nth:
  "c \<in> set cols \<Longrightarrow> length (snd r) = length cols \<Longrightarrow> cell_of cols r c = snd r ! position cols c"
proof (induction cols arbitrary: r)
  case Nil then show ?case by simp
next
  case (Cons x xs)
  obtain l cs where r: "r = (l, cs)" by (cases r)
  with Cons.prems obtain v vs where cs: "cs = v # vs" by (cases cs) auto
  show ?case
  proof (cases "x = c")
    case True then show ?thesis by (simp add: cell_of_def r cs)
  next
    case False
    with Cons.prems have "c \<in> set xs" by simp
    moreover have "length (snd (l, vs)) = length xs" using Cons.prems r cs by simp
    ultimately have "cell_of xs (l, vs) c = snd (l, vs) ! position xs c" by (rule Cons.IH)
    with False show ?thesis by (simp add: cell_of_def r cs)
  qed
qed

lemma position_less: "c \<in> set cols \<Longrightarrow> position cols c < length cols"
  by (induction cols) auto

lemma cell_of_absent: "c \<notin> set cols \<Longrightarrow> length (snd r) = length cols \<Longrightarrow> cell_of cols r c = Null"
  by (auto simp: cell_of_def split: option.splits dest!: map_of_SomeD set_zip_leftD)

lemma columns_set_column:
  "columns (set_column df c vs) = (if c \<in> set (columns df) then columns df else columns df @ [c])"
  by (simp add: set_column_def)

lemma length_rows_set_column:
  "length vs = length (rows df) \<Longrightarrow> length (rows (set_column df c vs)) = length (rows df)"
  by (simp add: set_column_def)

lemma labels_set_column:
  "length vs = length (rows df) \<Longrightarrow> map fst (rows (set_column df c vs)) = map fst (rows df)"
  by (auto simp: set_column_def intro!: nth_equalityI)

lemma wf_set_column:
  "wf_df df \<Longrightarrow> wf_df (set_column df c vs)"
  by (auto simp: wf_df_def set_column_def list_all_iff dest!: set_zip_leftD)

lemma cell_of_update_same:
  "c \<in> set cols \<Longrightarrow> length cs = length cols \<Longrightarrow> cell_of cols (l, cs[position cols c := v]) c = v"
  using cell_of_nth[of c cols "(l, cs[position cols c := v])"] position_less[of c cols] by simp

lemma position_neq: "c \<in> set cols \<Longrightarrow> c' \<in> set cols \<Longrightarrow> c \<noteq> c' \<Longrightarrow> position cols c \<noteq> position cols c'"
  by (induction cols) auto

lemma cell_of_update_other:
  assumes "c \<in> set cols" "c' \<noteq> c" "length cs = length cols"
  shows "cell_of cols (l, cs[position cols c := v]) c' = cell_of cols (l, cs) c'"
proof (cases "c' \<in> set cols")
  case True
  then show ?thesis
    using assms cell_of_nth[of c' cols "(l, cs[position cols c := v])"] cell_of_nth[of c' cols "(l, cs)"]
      position_neq[of c cols c'] by simp
next
  case False
  then show ?thesis using assms by (simp add: cell_of_absent)
qed

lemma cell_of_append_same:
  "c \<notin> set cols \<Longrightarrow> length cs = length cols \<Longrightarrow> cell_of (cols @ [c]) (l, cs @ [v]) c = v"
  by (simp add: cell_of_def map_of_append split: option.splits) (auto dest!: map_of_SomeD set_zip_leftD)

lemma cell_of_append_other:
  "c' \<noteq> c \<Longrightarrow> length cs = length cols \<Longrightarrow> cell_of (cols @ [c]) (l, cs @ [v]) c' = cell_of cols (l, cs) c'"
  by (auto simp: cell_of_def map_of_append map_add_def split: option.splits
        dest!: map_of_SomeD set_zip_leftD)

lemma column_cells_set_same:
  assumes "wf_df df" "length vs = length (rows df)"
  shows "column_cells (set_column df c vs) c = vs"
proof (rule nth_equalityI)
  show "length (column_cells (set_column df c vs) c) = length vs"
    using assms by (simp add: column_cells_def length_rows_set_column)
next
  fix i assume "i < length (column_cells (set_column df c vs) c)"
  then have i: "i < length (rows df)" using assms by (simp add: column_cells_def length_rows_set_column)
  obtain l cs where r: "rows df ! i = (l, cs)" by (cases "rows df ! i")
  have len: "length cs = length (columns df)"
    using assms(1) i r by (auto simp: wf_df_def list_all_length)
  show "column_cells (set_column df c vs) c ! i = vs ! i"
    using i assms(2) r len
    by (simp add: column_cells_def set_column_def cell_of_update_same cell_of_append_same)
qed

lemma column_cells_set_other:
  assumes "wf_df df" "length vs = length (rows df)" "c' \<noteq> c"
  shows "column_cells (set_column df c vs) c' = column_cells df c'"
proof (rule nth_equalityI)
  show "length (column_cells (set_column df c vs) c') = length (column_cells df c')"
    using assms by (simp add: column_cells_def length_rows_set_column)
next
  fix i assume "i < length (column_cells (set_column df c vs) c')"
  then have i: "i < length (rows df)" using assms by (simp add: column_cells_def length_rows_set_column)
  obtain l cs where r: "rows df ! i = (l, cs)" by (cases "rows df ! i")
  have len: "length cs = length (columns df)"
    using assms(1) i r by (auto simp: wf_df_def list_all_length)
  show "column_cells (set_column df c vs) c' ! i = column_cells df c' ! i"
    using i assms(2,3) r len
    by (simp add: column_cells_def set_column_def cell_of_update_other cell_of_append_other)
qed




lemma sequence_map_Inr:
  "(\<And>x. x \<in> set xs \<Longrightarrow> f x = Inr (g x)) \<Longrightarrow> sequence (map f xs) = Inr (map g xs)"
  by (induction xs) (simp_all add: and_then_def)

lemma sequence_length: "sequence ms = Inr xs \<Longrightarrow> length xs = length ms"
  by (induction ms arbitrary: xs) (auto simp: and_then_def split: sum.splits)

lemma delivery_days_ts:
  "is_ts d \<Longrightarrow> is_ts p \<Longrightarrow>
   delivery_days d p =
     Inr (case (d, p) of (TsV a, TsV b) \<Rightarrow> Some ((a - b) div ns_per_day) | _ \<Rightarrow> None)"
  by (cases d; cases p) (simp_all add: is_ts_def)

lemma int_series_nth:
  "i < length vs \<Longrightarrow>
   (case vs ! i of None \<Rightarrow> int_series vs ! i = Null
    | Some n \<Rightarrow> fnum_of_cell (int_series vs ! i) = Fin (of_int n))"
  by (simp add: int_series_def split: option.splits)

lemma categorize_int:
  "categorize_delivery_speed (Fin (of_int n)) =
     (if n \<le> 3 then ''1-3 days'' else if n \<le> 7 then ''4-7 days'' else ''8+ days'')"
proof -
  have "(rat_of_int n \<le> 3) = (n \<le> 3)" "(rat_of_int n \<le> 7) = (n \<le> 7)"
    using of_int_le_iff[of n 3, where 'a = rat] of_int_le_iff[of n 7, where 'a = rat] by simp_all
  then show ?thesis by (simp add: categorize_delivery_speed_def)
qed


lemma in_set_zip_fst_snd:
  "x \<in> set (zip xs ys) \<Longrightarrow> fst x \<in> set xs \<and> snd x \<in> set ys"
  by (cases x) (auto dest: set_zip_leftD set_zip_rightD)

lemma add_delivery_metrics_general:
  assumes wf: "wf_df df"
    and cd: "''order_delivered_customer_date'' \<in> set (columns df)"
    and cp: "''order_purchase_timestamp'' \<in> set (columns df)"
    and td: "list_all is_ts (column_cells df ''order_delivered_customer_date'')"
    and tp: "list_all is_ts (column_cells df ''order_purchase_timestamp'')"
  shows "\<exists>df'. add_delivery_metrics df = Inr df' \<and>
           map fst (rows df') = map fst (rows df) \<and>
           (\<forall>i<length (rows df).
              case (column_cells df ''order_delivered_customer_date'' ! i,
                    column_cells df ''order_purchase_timestamp'' ! i) of
                (TsV d, TsV p) \<Rightarrow>
                  fnum_of_cell (column_cells df' ''delivery_speed_days'' ! i) =
                    Fin (of_int ((d - p) div ns_per_day)) \<and>
                  column_cells df' ''delivery_category'' ! i =
                    StrV (if (d - p) div ns_per_day \<le> 3 then ''1-3 days''
                          else if (d - p) div ns_per_day \<le> 7 then ''4-7 days''
                          else ''8+ days'')
              | _ \<Rightarrow>
                  column_cells df' ''delivery_speed_days'' ! i = Null \<and>
                  column_cells df' ''delivery_category'' ! i = StrV ''Unknown'')"
proof -
  let ?D = "column_cells df ''order_delivered_customer_date''"
  let ?P = "column_cells df ''order_purchase_timestamp''"
  let ?g = "\<lambda>(d, p). case (d, p) of (TsV a, TsV b) \<Rightarrow> Some ((a - b) div ns_per_day) | _ \<Rightarrow> None"
  let ?days = "map ?g (zip ?D ?P)"
  let ?df1 = "set_column df ''delivery_speed_days'' (int_series ?days)"
  let ?cats = "map (\<lambda>v. StrV (categorize_delivery_speed (fnum_of_cell v))) (int_series ?days)"
  let ?df2 = "set_column ?df1 ''delivery_category'' ?cats"
  have lenD: "length ?D = length (rows df)" and lenP: "length ?P = length (rows df)"
    by (simp_all add: column_cells_def)
  have seq: "sequence (map2 delivery_days ?D ?P) = Inr ?days"
  proof (rule sequence_map_Inr)
    fix x assume "x \<in> set (zip ?D ?P)"
    then have "fst x \<in> set ?D" "snd x \<in> set ?P"
      by (simp_all add: in_set_zip_fst_snd)
    then have "is_ts (fst x)" "is_ts (snd x)"
      using td tp by (simp_all add: list_all_iff)
    then show "(case x of (d, p) \<Rightarrow> delivery_days d p) = Inr (?g x)"
      by (cases x) (simp add: delivery_days_ts)
  qed
  have len_days: "length (int_series ?days) = length (rows df)"
    using lenD lenP by (simp add: int_series_def)
  have wf1: "wf_df ?df1" using wf by (rule wf_set_column)
  have len1: "length (rows ?df1) = length (rows df)"
    using len_days by (simp add: length_rows_set_column)
  have col1: "column_cells ?df1 ''delivery_speed_days'' = int_series ?days"
    using wf len_days by (rule column_cells_set_same)
  have res: "add_delivery_metrics df = Inr ?df2"
    using cd cp seq col1 by (simp add: add_delivery_metrics_def and_then_def Let_def)
  have len_cats: "length ?cats = length (rows ?df1)"
    using len1 len_days by simp
  have cat2: "column_cells ?df2 ''delivery_category'' = ?cats"
    using wf1 len_cats by (rule column_cells_set_same)
  have days2: "column_cells ?df2 ''delivery_speed_days'' = int_series ?days"
    using column_cells_set_other[OF wf1 len_cats, of "''delivery_speed_days''" "''delivery_category''"] col1
    by simp
  have labels: "map fst (rows ?df2) = map fst (rows df)"
    using labels_set_column[OF len_cats, of "''delivery_category''"]
      labels_set_column[OF len_days, of "''delivery_speed_days''"] by simp
  have rows_ok: "\<forall>i<length (rows df).
              case (?D ! i, ?P ! i) of
                (TsV d, TsV p) \<Rightarrow>
                  fnum_of_cell (column_cells ?df2 ''delivery_speed_days'' ! i) =
                    Fin (of_int ((d - p) div ns_per_day)) \<and>
                  column_cells ?df2 ''delivery_category'' ! i =
                    StrV (if (d - p) div ns_per_day \<le> 3 then ''1-3 days''
                          else if (d - p) div ns_per_day \<le> 7 then ''4-7 days''
                          else ''8+ days'')
              | _ \<Rightarrow>
                  column_cells ?df2 ''delivery_speed_days'' ! i = Null \<and>
                  column_cells ?df2 ''delivery_category'' ! i = StrV ''Unknown''"
  proof (intro allI impI)
    fix i assume i: "i < length (rows df)"
    then have idays: "i < length ?days" using lenD lenP by simp
    have nth_days: "?days ! i = ?g (?D ! i, ?P ! i)"
      using i lenD lenP by simp
    have ilen: "i < length (int_series ?days)" using i len_days by simp
    note ser = int_series_nth[OF idays]
    show "case (?D ! i, ?P ! i) of
                (TsV d, TsV p) \<Rightarrow>
                  fnum_of_cell (column_cells ?df2 ''delivery_speed_days'' ! i) =
                    Fin (of_int ((d - p) div ns_per_day)) \<and>
                  column_cells ?df2 ''delivery_category'' ! i =
                    StrV (if (d - p) div ns_per_day \<le> 3 then ''1-3 days''
                          else if (d - p) div ns_per_day \<le> 7 then ''4-7 days''
                          else ''8+ days'')
              | _ \<Rightarrow>
                  column_cells ?df2 ''delivery_speed_days'' ! i = Null \<and>
                  column_cells ?df2 ''delivery_category'' ! i = StrV ''Unknown''"
    proof (cases "?g (?D ! i, ?P ! i)")
      case None
      then have n: "int_series ?days ! i = Null" using ser nth_days by simp
      have "nth ?cats i = StrV ''Unknown''"
        using ilen n by (simp add: categorize_delivery_speed_def del: int_series_def)
      with None n show ?thesis
        unfolding cat2 days2 by (auto split: cell.splits prod.splits)
    next
      case (Some k)
      then have n: "fnum_of_cell (int_series ?days ! i) = Fin (of_int k)" using ser nth_days by simp
      have "nth ?cats i = StrV (if k \<le> 3 then ''1-3 days'' else if k \<le> 7 then ''4-7 days'' else ''8+ days'')"
        using ilen n by (simp add: categorize_int)
      with Some n show ?thesis
        unfolding cat2 days2 by (auto split: cell.splits prod.splits)
    qed
  qed
  from res labels rows_ok show ?thesis by blast
qed


section \<open>Facts about the date range filter\<close>


lemma and_then_Inr: "and_then m f = Inr y \<longleftrightarrow> (\<exists>x. m = Inr x \<and> f x = Inr y)"
  by (cases m) (simp_all add: and_then_def)

lemma and_then_Inl: "and_then m f = Inl e \<longleftrightarrow> (m = Inl e \<or> (\<exists>x. m = Inr x \<and> f x = Inl e))"
  by (cases m) (simp_all add: and_then_def)

lemma boolean_index_Inr:
  assumes "boolean_index cmp c b d = Inr d'"
  shows "columns d' = columns d"
    and "rows d' = filter (\<lambda>r. cmp (cell_of (columns d) r c) b = Some True) (rows d)"
    and "\<forall>r\<in>set (rows d). cmp (cell_of (columns d) r c) b \<noteq> None"
  using assms by (auto simp: boolean_index_def list_ex_iff split: if_splits)

lemma boolean_index_Inl: "boolean_index cmp c b d = Inl e \<Longrightarrow> e = TypeError"
  by (auto simp: boolean_index_def split: if_splits)

lemma boolean_index_fixed:
  assumes "boolean_index cmp c b d = Inr d'" "columns e = columns d" "set (rows e) \<subseteq> set (rows d')"
  shows "boolean_index cmp c b e = Inr e"
proof -
  have "\<forall>r\<in>set (rows e). cmp (cell_of (columns e) r c) b = Some True"
    using assms boolean_index_Inr(2)[OF assms(1)] by auto
  then have "\<not> list_ex (\<lambda>r. cmp (cell_of (columns e) r c) b = None) (rows e)"
    and "filter (\<lambda>r. cmp (cell_of (columns e) r c) b = Some True) (rows e) = rows e"
    by (auto simp: list_ex_iff)
  then show ?thesis by (simp add: boolean_index_def)
qed

lemma bound_step_Inr_conj:
  assumes "valid_ref s" "bound_step b c cmp s = Inr s'"
  shows "valid_ref s' \<and> (\<exists>ext. fst s' = fst s @ ext) \<and> snd s \<le> snd s' \<and>
     columns (table_of s') = columns (table_of s) \<and>
     (\<exists>P. rows (table_of s') = filter P (rows (table_of s)))"
proof -
  obtain h r where s: "s = (h, r)" by (cases s)
  show ?thesis
  proof (cases "truthy b \<and> c \<in> set (columns (h ! r))")
    case True
    with assms(2) s obtain d where d: "boolean_index cmp c (the b) (h ! r) = Inr d"
      and s': "s' = new_object h d"
      by (auto simp: bound_step_def and_then_Inr)
    show ?thesis
      using boolean_index_Inr(1,2)[OF d] assms(1) s
      by (auto simp: s' table_of_def valid_ref_def new_object_def)
  next
    case False
    with assms(2) s have eq: "s' = s" by (auto simp: bound_step_def)
    have "rows (table_of s) = filter (\<lambda>_. True) (rows (table_of s))" by simp
    then have "\<exists>P. rows (table_of s) = filter P (rows (table_of s))" by blast
    then show ?thesis using assms(1) eq by simp
  qed
qed

lemma bound_step_Inr:
  assumes "valid_ref s" "bound_step b c cmp s = Inr s'"
  shows "valid_ref s'" and "\<exists>ext. fst s' = fst s @ ext" and "snd s \<le> snd s'"
    and "columns (table_of s') = columns (table_of s)"
    and "\<exists>P. rows (table_of s') = filter P (rows (table_of s))"
  using bound_step_Inr_conj[OF assms] by blast+

lemma bound_step_Inl: "bound_step b c cmp s = Inl e \<Longrightarrow> e = TypeError"
  by (cases s) (auto simp: bound_step_def and_then_Inl dest: boolean_index_Inl split: if_splits)

lemma bound_step_fixed:
  assumes "bound_step b c cmp s = Inr s'"
    and "columns (table_of t) = columns (table_of s)"
    and "set (rows (table_of t)) \<subseteq> set (rows (table_of s'))"
  shows "\<exists>t'. bound_step b c cmp t = Inr t' \<and> table_of t' = table_of t \<and>
           (valid_ref t \<longrightarrow> valid_ref t')"
proof -
  obtain h r where s: "s = (h, r)" by (cases s)
  obtain g e where t: "t = (g, e)" by (cases t)
  show ?thesis
  proof (cases "truthy b \<and> c \<in> set (columns (h ! r))")
    case True
    with assms(1) s obtain d where d: "boolean_index cmp c (the b) (h ! r) = Inr d"
      and s': "s' = new_object h d"
      by (auto simp: bound_step_def and_then_Inr)
    have "boolean_index cmp c (the b) (g ! e) = Inr (g ! e)"
      using boolean_index_fixed[OF d, of "g ! e"] assms(2,3) s t
      by (simp add: s' new_object_def table_of_def)
    then have "bound_step b c cmp t = Inr (new_object g (g ! e))"
      using True assms(2) s t by (simp add: bound_step_def and_then_def table_of_def)
    then show ?thesis by (simp add: new_object_def t table_of_def valid_ref_def)
  next
    case False
    then have "bound_step b c cmp t = Inr t"
      using assms(2) s t by (auto simp: bound_step_def table_of_def)
    then show ?thesis by simp
  qed
qed

lemma cmp_numeric: "is_numeric v \<Longrightarrow> cell_ge v b \<noteq> None \<and> cell_le v b \<noteq> None"
  by (cases v) (simp_all add: is_numeric_def)

lemma bound_step_total:
  assumes "cmp = cell_ge \<or> cmp = cell_le"
    and "list_all is_numeric (column_cells (table_of s) c)"
  shows "\<exists>s'. bound_step b c cmp s = Inr s'"
proof -
  obtain h r where s: "s = (h, r)" by (cases s)
  have "\<forall>x\<in>set (rows (h ! r)). cmp (cell_of (columns (h ! r)) x c) (the b) \<noteq> None"
    using assms s cmp_numeric by (auto simp: list_all_iff column_cells_def table_of_def)
  then have "\<exists>d. boolean_index cmp c (the b) (h ! r) = Inr d"
    by (simp add: boolean_index_def list_ex_iff)
  then show ?thesis using s by (auto simp: bound_step_def and_then_def)
qed

lemma numeric_subset:
  assumes "list_all is_numeric (column_cells d c)" "columns d' = columns d"
    "set (rows d') \<subseteq> set (rows d)"
  shows "list_all is_numeric (column_cells d' c)"
  using assms by (auto simp: list_all_iff column_cells_def)


lemma narrows_step: "valid_ref s \<Longrightarrow> bound_step b c cmp s = Inr s' \<Longrightarrow> narrows s s'"
  unfolding narrows_def by (rule bound_step_Inr_conj)

lemma narrows_trans:
  assumes "narrows s s'" "narrows s' s''"
  shows "narrows s s''"
proof -
  from assms obtain e1 e2 P Q where
    "fst s' = fst s @ e1" "fst s'' = fst s' @ e2"
    "rows (table_of s') = filter P (rows (table_of s))"
    "rows (table_of s'') = filter Q (rows (table_of s'))"
    unfolding narrows_def by blast
  then have "fst s'' = fst s @ (e1 @ e2)"
    "rows (table_of s'') = filter (\<lambda>x. P x \<and> Q x) (rows (table_of s))"
    by (simp_all add: conj_commute)
  then have "\<exists>ext. fst s'' = fst s @ ext"
    "\<exists>R. rows (table_of s'') = filter R (rows (table_of s))" by blast+
  then show ?thesis using assms unfolding narrows_def by auto
qed

lemma narrows_valid: "narrows s s' \<Longrightarrow> valid_ref s'"
  by (simp add: narrows_def)

lemma narrows_columns: "narrows s s' \<Longrightarrow> columns (table_of s') = columns (table_of s)"
  by (simp add: narrows_def)

lemma narrows_rows: "narrows s s' \<Longrightarrow> set (rows (table_of s')) \<subseteq> set (rows (table_of s))"
  by (auto simp: narrows_def)

lemma filter_steps:
  "filter_by_date_range h df dc sy ey sm em = Inr s4 \<longleftrightarrow>
   (\<exists>s1 s2 s3.
      bound_step sy (dc @ ''_year'') cell_ge (new_object h (h ! df)) = Inr s1 \<and>
      bound_step ey (dc @ ''_year'') cell_le s1 = Inr s2 \<and>
      bound_step sm (dc @ ''_month'') cell_ge s2 = Inr s3 \<and>
      bound_step em (dc @ ''_month'') cell_le s3 = Inr s4)"
  by (simp add: filter_by_date_range_def Let_def and_then_Inr)

lemma filter_Inl: "filter_by_date_range h df dc sy ey sm em = Inl e \<Longrightarrow> e = TypeError"
  by (auto simp: filter_by_date_range_def Let_def and_then_Inl dest: bound_step_Inl)

lemma new_object_start:
  "df < length h \<Longrightarrow> valid_ref (new_object h (h ! df))"
  "table_of (new_object h d) = d"
  "fst (new_object h d) = h @ [d]"
  "snd (new_object h d) = length h"
  by (simp_all add: new_object_def valid_ref_def table_of_def)

lemma filter_narrows:
  assumes "df < length h" "filter_by_date_range h df dc sy ey sm em = Inr s4"
  shows "narrows (new_object h (h ! df)) s4"
proof -
  let ?s0 = "new_object h (h ! df)"
  from assms(2) obtain s1 s2 s3 where
    1: "bound_step sy (dc @ ''_year'') cell_ge ?s0 = Inr s1" and
    2: "bound_step ey (dc @ ''_year'') cell_le s1 = Inr s2" and
    3: "bound_step sm (dc @ ''_month'') cell_ge s2 = Inr s3" and
    4: "bound_step em (dc @ ''_month'') cell_le s3 = Inr s4"
    unfolding filter_steps by blast
  have v0: "valid_ref ?s0" using assms(1) by (rule new_object_start)
  have n1: "narrows ?s0 s1" using v0 1 by (rule narrows_step)
  have n2: "narrows s1 s2" using narrows_valid[OF n1] 2 by (rule narrows_step)
  have n3: "narrows s2 s3" using narrows_valid[OF n2] 3 by (rule narrows_step)
  have n4: "narrows s3 s4" using narrows_valid[OF n3] 4 by (rule narrows_step)
  show ?thesis using n1 n2 n3 n4 by (blast intro: narrows_trans)
qed

lemma filter_idem:
  assumes "df < length h" "filter_by_date_range h df dc sy ey sm em = Inr s4"
  shows "\<exists>t4. filter_by_date_range (fst s4) (snd s4) dc sy ey sm em = Inr t4 \<and>
           table_of t4 = table_of s4"
proof -
  let ?s0 = "new_object h (h ! df)"
  let ?t0 = "new_object (fst s4) (table_of s4)"
  from assms(2) obtain s1 s2 s3 where
    1: "bound_step sy (dc @ ''_year'') cell_ge ?s0 = Inr s1" and
    2: "bound_step ey (dc @ ''_year'') cell_le s1 = Inr s2" and
    3: "bound_step sm (dc @ ''_month'') cell_ge s2 = Inr s3" and
    4: "bound_step em (dc @ ''_month'') cell_le s3 = Inr s4"
    unfolding filter_steps by blast
  have v0: "valid_ref ?s0" using assms(1) by (rule new_object_start)
  have n1: "narrows ?s0 s1" using v0 1 by (rule narrows_step)
  have n2: "narrows s1 s2" using narrows_valid[OF n1] 2 by (rule narrows_step)
  have n3: "narrows s2 s3" using narrows_valid[OF n2] 3 by (rule narrows_step)
  have n4: "narrows s3 s4" using narrows_valid[OF n3] 4 by (rule narrows_step)
  have n34: "narrows s3 s4" by (rule n4)
  have n24: "narrows s2 s4" using n3 n4 by (rule narrows_trans)
  have n14: "narrows s1 s4" using n2 n24 by (rule narrows_trans)
  have n04: "narrows ?s0 s4" using n1 n14 by (rule narrows_trans)
  have T: "table_of ?t0 = table_of s4" by (rule new_object_start)
  have c0: "columns (table_of s4) = columns (table_of ?s0)" using n04 by (rule narrows_columns)
  have c1: "columns (table_of s4) = columns (table_of s1)"
    using c0 narrows_columns[OF n1] by simp
  have c2: "columns (table_of s4) = columns (table_of s2)"
    using c1 narrows_columns[OF n2] by simp
  have c3: "columns (table_of s4) = columns (table_of s3)"
    using c2 narrows_columns[OF n3] by simp
  from bound_step_fixed[OF 1, of ?t0] c0 narrows_rows[OF n14] T
  obtain t1 where t1: "bound_step sy (dc @ ''_year'') cell_ge ?t0 = Inr t1"
    and T1: "table_of t1 = table_of s4" by auto
  from bound_step_fixed[OF 2, of t1] c1 narrows_rows[OF n24] T1
  obtain t2 where t2: "bound_step ey (dc @ ''_year'') cell_le t1 = Inr t2"
    and T2: "table_of t2 = table_of s4" by auto
  from bound_step_fixed[OF 3, of t2] c2 narrows_rows[OF n34] T2
  obtain t3 where t3: "bound_step sm (dc @ ''_month'') cell_ge t2 = Inr t3"
    and T3: "table_of t3 = table_of s4" by auto
  from bound_step_fixed[OF 4, of t3] c3 T3
  obtain t4 where t4: "bound_step em (dc @ ''_month'') cell_le t3 = Inr t4"
    and T4: "table_of t4 = table_of s4" by auto
  have t1': "bound_step sy (dc @ ''_year'') cell_ge (new_object (fst s4) (fst s4 ! snd s4)) = Inr t1"
    using t1 by (simp add: table_of_def)
  have "filter_by_date_range (fst s4) (snd s4) dc sy ey sm em = Inr t4"
    unfolding filter_steps using t1' t2 t3 t4 by blast
  with T4 show ?thesis by blast
qed

lemma filter_total:
  assumes "df < length h"
    and "list_all is_numeric (column_cells (h ! df) (dc @ ''_year''))"
    and "list_all is_numeric (column_cells (h ! df) (dc @ ''_month''))"
  shows "\<exists>s4. filter_by_date_range h df dc sy ey sm em = Inr s4"
proof -
  let ?s0 = "new_object h (h ! df)"
  have v0: "valid_ref ?s0" using assms(1) by (rule new_object_start)
  have T0: "table_of ?s0 = h ! df" by (rule new_object_start)
  from bound_step_total[of cell_ge ?s0 "dc @ ''_year''" sy] assms(2) T0
  obtain s1 where 1: "bound_step sy (dc @ ''_year'') cell_ge ?s0 = Inr s1" by auto
  have n1: "narrows ?s0 s1" using v0 1 by (rule narrows_step)
  have y1: "list_all is_numeric (column_cells (table_of s1) (dc @ ''_year''))"
    using numeric_subset[OF _ narrows_columns[OF n1] narrows_rows[OF n1]] assms(2) T0 by simp
  have m1: "list_all is_numeric (column_cells (table_of s1) (dc @ ''_month''))"
    using numeric_subset[OF _ narrows_columns[OF n1] narrows_rows[OF n1]] assms(3) T0 by simp
  from bound_step_total[of cell_le s1 "dc @ ''_year''" ey] y1
  obtain s2 where 2: "bound_step ey (dc @ ''_year'') cell_le s1 = Inr s2" by auto
  have n2: "narrows s1 s2" using narrows_valid[OF n1] 2 by (rule narrows_step)
  have m2: "list_all is_numeric (column_cells (table_of s2) (dc @ ''_month''))"
    using numeric_subset[OF m1 narrows_columns[OF n2] narrows_rows[OF n2]] .
  from bound_step_total[of cell_ge s2 "dc @ ''_month''" sm] m2
  obtain s3 where 3: "bound_step sm (dc @ ''_month'') cell_ge s2 = Inr s3" by auto
  have n3: "narrows s2 s3" using narrows_valid[OF n2] 3 by (rule narrows_step)
  have m3: "list_all is_numeric (column_cells (table_of s3) (dc @ ''_month''))"
    using numeric_subset[OF m2 narrows_columns[OF n3] narrows_rows[OF n3]] .
  from bound_step_total[of cell_le s3 "dc @ ''_month''" em] m3
  obtain s4 where 4: "bound_step em (dc @ ''_month'') cell_le s3 = Inr s4" by auto
  show ?thesis unfolding filter_steps using 1 2 3 4 by blast
qed

section \<open>Facts about the sales table\<close>





lemma length_range_index: "length (range_index css) = length css"
  by (simp add: range_index_def)

lemma length_concat_map: "length (concat (map f xs)) = sum_list (map (\<lambda>x. length (f x)) xs)"
  by (induction xs) simp_all

lemma merge_inner_count:
  "merge_inner left right on = Inr m \<Longrightarrow>
   length (rows m) = sum_list (map (\<lambda>l. length (matches left right on l)) (rows left))"
  by (auto simp: merge_inner_def length_range_index length_concat_map o_def split: if_splits)

lemma cell_of_selected:
  "c \<in> set cs \<Longrightarrow> cell_of cs (l, map f cs) c = f c"
  by (simp add: cell_of_def map_of_zip_map)

lemma select_columns_Inr:
  assumes "select_columns df cs = Inr d"
  shows "columns d = cs" and "rows d = map (\<lambda>r. (fst r, map (cell_of (columns df) r) cs)) (rows df)"
  using assms by (auto simp: select_columns_def split: if_splits)

lemma select_columns_cells:
  assumes "select_columns df cs = Inr d" "c \<in> set cs"
  shows "column_cells d c = column_cells df c"
  using assms
  by (simp add: column_cells_def select_columns_Inr[OF assms(1)] o_def cell_of_selected)

lemma preprocess_dates_length:
  "preprocess_dates conv df cs = Inr d \<Longrightarrow> length (rows d) = length (rows df)"
proof (induction cs arbitrary: df)
  case Nil
  then show ?case by simp
next
  case (Cons c cs)
  show ?case
  proof (cases "c \<in> set (columns df)")
    case True
    with Cons.prems obtain vs where vs: "sequence (map conv (column_cells df c)) = Inr vs"
      and rest: "preprocess_dates conv (set_column df c vs) cs = Inr d"
      by (auto simp: and_then_Inr)
    have "length vs = length (rows df)"
      using sequence_length[OF vs] by (simp add: column_cells_def)
    then show ?thesis
      using Cons.IH[OF rest] by (simp add: length_rows_set_column)
  next
    case False
    with Cons.prems Cons.IH show ?thesis by simp
  qed
qed

lemma dt_field_length: "dt_field f df c = Inr vs \<Longrightarrow> length vs = length (rows df)"
  by (auto simp: dt_field_def and_then_Inr int_series_def column_cells_def dest!: sequence_length)

lemma add_time_features_length:
  assumes "add_time_features df c = Inr d"
  shows "length (rows d) = length (rows df)"
proof (cases "c \<in> set (columns df)")
  case True
  with assms obtain ys ms qs ds where
    y: "dt_field ts_year df c = Inr ys" and
    m: "dt_field ts_month (set_column df (c @ ''_year'') ys) c = Inr ms" and
    q: "dt_field ts_quarter (set_column (set_column df (c @ ''_year'') ys) (c @ ''_month'') ms) c = Inr qs" and
    dd: "dt_field ts_day (set_column (set_column (set_column df (c @ ''_year'') ys)
           (c @ ''_month'') ms) (c @ ''_quarter'') qs) c = Inr ds" and
    d: "d = set_column (set_column (set_column (set_column df (c @ ''_year'') ys)
           (c @ ''_month'') ms) (c @ ''_quarter'') qs) (c @ ''_day'') ds"
    by (auto simp: add_time_features_def and_then_Inr Let_def)
  have 1: "length (rows (set_column df (c @ ''_year'') ys)) = length (rows df)"
    using dt_field_length[OF y] by (simp add: length_rows_set_column)
  have 2: "length (rows (set_column (set_column df (c @ ''_year'') ys) (c @ ''_month'') ms)) = length (rows df)"
    using dt_field_length[OF m] 1 by (simp add: length_rows_set_column)
  have 3: "length (rows (set_column (set_column (set_column df (c @ ''_year'') ys)
           (c @ ''_month'') ms) (c @ ''_quarter'') qs)) = length (rows df)"
    using dt_field_length[OF q] 2 by (simp add: length_rows_set_column)
  show ?thesis
    unfolding d using dt_field_length[OF dd] 3 by (simp add: length_rows_set_column)
next
  case False
  with assms show ?thesis by (simp add: add_time_features_def)
qed

lemma length_filter_distinct_key:
  "distinct (map f xs) \<Longrightarrow> length (filter (\<lambda>x. f x = k) xs) = (if k \<in> f ` set xs then 1 else 0)"
  by (induction xs) (auto simp: image_iff)

lemma sum_list_indicator:
  "sum_list (map (\<lambda>x. if P x then 1 else 0) xs) = length (filter P xs)"
  by (induction xs) simp_all

lemma matches_selected:
  assumes l: "select_columns A lc = Inr left" and r: "select_columns B rc = Inr right"
    and "on \<in> set lc" "on \<in> set rc"
  shows "map (\<lambda>l. length (matches left right on l)) (rows left) =
         map (\<lambda>l. length (filter (\<lambda>r. cell_of (columns B) r on = cell_of (columns A) l on)
                (rows B))) (rows A)"
  using assms(3,4)
  by (simp add: matches_def select_columns_Inr[OF l] select_columns_Inr[OF r] o_def
      cell_of_selected filter_map)

lemma create_sales_dataset_count:
  assumes run: "create_sales_dataset conv self = Inr sales"
    and items: "datasets self ''order_items'' = Some items"
    and ords: "datasets self ''orders'' = Some ords"
  shows "length (rows sales) =
     sum_list (map (\<lambda>l. length (filter
        (\<lambda>r. cell_of (columns ords) r ''order_id'' = cell_of (columns items) l ''order_id'')
        (rows ords))) (rows items))"
proof -
  let ?lc = "[''order_id'', ''order_item_id'', ''product_id'', ''price'', ''freight_value'']"
  let ?rc = "[''order_id'', ''customer_id'', ''order_status'',
             ''order_purchase_timestamp'', ''order_delivered_customer_date'']"
  from run items ords obtain left right m p where
    l: "select_columns items ?lc = Inr left" and
    r: "select_columns ords ?rc = Inr right" and
    m: "merge_inner left right ''order_id'' = Inr m" and
    p: "preprocess_dates conv m [''order_purchase_timestamp'', ''order_delivered_customer_date''] = Inr p" and
    t: "add_time_features p ''order_purchase_timestamp'' = Inr sales"
    by (auto simp: create_sales_dataset_def and_then_Inr)
  have "length (rows sales) = length (rows m)"
    using add_time_features_length[OF t] preprocess_dates_length[OF p] by simp
  also have "\<dots> = sum_list (map (\<lambda>l. length (matches left right ''order_id'' l)) (rows left))"
    using m by (rule merge_inner_count)
  also have "\<dots> = sum_list (map (\<lambda>l. length (filter
        (\<lambda>r. cell_of (columns ords) r ''order_id'' = cell_of (columns items) l ''order_id'')
        (rows ords))) (rows items))"
    using matches_selected[OF l r, of "''order_id''"] by simp
  finally show ?thesis .
qed

section \<open>Claims about data\_loader.py\<close>

text \<open>
  C3. On a table whose purchase and delivery columns hold timestamps (or nothing),
  \<open>add_delivery_metrics\<close> succeeds, keeps the rows, and gives every row the whole-day
  difference delivered minus purchased as \<^verbatim>\<open>delivery_speed_days\<close> and its bucket as
  \<^verbatim>\<open>delivery_category\<close>: at most 3 days \<^verbatim>\<open>1-3 days\<close>, more than 3 and at most 7
  \<^verbatim>\<open>4-7 days\<close>, more than 7 \<^verbatim>\<open>8+ days\<close>; a row with a missing date has no day count
  and the category \<^verbatim>\<open>Unknown\<close>. Purchases on 2024-01-01 delivered on 2024-01-03,
  2024-01-08 and 2024-01-09 take 2, 7 and 8 days and fall in the three buckets in turn.
\<close>

theorem add_delivery_metrics_days_and_category:
  "(wf_df df \<and>
    ''order_delivered_customer_date'' \<in> set (columns df) \<and>
    ''order_purchase_timestamp'' \<in> set (columns df) \<and>
    list_all is_ts (column_cells df ''order_delivered_customer_date'') \<and>
    list_all is_ts (column_cells df ''order_purchase_timestamp'') \<longrightarrow>
    (\<exists>df'. add_delivery_metrics df = Inr df' \<and>
       map fst (rows df') = map fst (rows df) \<and>
       (\<forall>i<length (rows df).
          case (column_cells df ''order_delivered_customer_date'' ! i,
                column_cells df ''order_purchase_timestamp'' ! i) of
            (TsV d, TsV p) \<Rightarrow>
              fnum_of_cell (column_cells df' ''delivery_speed_days'' ! i) =
                Fin (of_int ((d - p) div ns_per_day)) \<and>
              column_cells df' ''delivery_category'' ! i =
                StrV (if (d - p) div ns_per_day \<le> 3 then ''1-3 days''
                      else if (d - p) div ns_per_day \<le> 7 then ''4-7 days''
                      else ''8+ days'')
          | _ \<Rightarrow>
              column_cells df' ''delivery_speed_days'' ! i = Null \<and>
              column_cells df' ''delivery_category'' ! i = StrV ''Unknown''))) \<and>
   add_delivery_metrics delivery_example = Inr
     \<lparr>columns = [''order_purchase_timestamp'', ''order_delivered_customer_date'',
                 ''delivery_speed_days'', ''delivery_category''],
      rows = [(0, [TsV (timestamp 2024 1 1 0 0 0), TsV (timestamp 2024 1 3 0 0 0),
                   NumV 2, StrV ''1-3 days'']),
              (1, [TsV (timestamp 2024 1 1 0 0 0), TsV (timestamp 2024 1 8 0 0 0),
                   NumV 7, StrV ''4-7 days'']),
              (2, [TsV (timestamp 2024 1 1 0 0 0), TsV (timestamp 2024 1 9 0 0 0),
                   NumV 8, StrV ''8+ days'']),
              (3, [TsV (timestamp 2024 1 1 0 0 0), Null, Null, StrV ''Unknown''])]\<rparr>"
proof (intro conjI impI)
  assume "wf_df df \<and>
    ''order_delivered_customer_date'' \<in> set (columns df) \<and>
    ''order_purchase_timestamp'' \<in> set (columns df) \<and>
    list_all is_ts (column_cells df ''order_delivered_customer_date'') \<and>
    list_all is_ts (column_cells df ''order_purchase_timestamp'')"
  then show "\<exists>df'. add_delivery_metrics df = Inr df' \<and>
       map fst (rows df') = map fst (rows df) \<and>
       (\<forall>i<length (rows df).
          case (column_cells df ''order_delivered_customer_date'' ! i,
                column_cells df ''order_purchase_timestamp'' ! i) of
            (TsV d, TsV p) \<Rightarrow>
              fnum_of_cell (column_cells df' ''delivery_speed_days'' ! i) =
                Fin (of_int ((d - p) div ns_per_day)) \<and>
              column_cells df' ''delivery_category'' ! i =
                StrV (if (d - p) div ns_per_day \<le> 3 then ''1-3 days''
                      else if (d - p) div ns_per_day \<le> 7 then ''4-7 days''
                      else ''8+ days'')
          | _ \<Rightarrow>
              column_cells df' ''delivery_speed_days'' ! i = Null \<and>
              column_cells df' ''delivery_category'' ! i = StrV ''Unknown'')"
    using add_delivery_metrics_general[of df] by blast
next
  show "add_delivery_metrics delivery_example = Inr
     \<lparr>columns = [''order_purchase_timestamp'', ''order_delivered_customer_date'',
                 ''delivery_speed_days'', ''delivery_category''],
      rows = [(0, [TsV (timestamp 2024 1 1 0 0 0), TsV (timestamp 2024 1 3 0 0 0),
                   NumV 2, StrV ''1-3 days'']),
              (1, [TsV (timestamp 2024 1 1 0 0 0), TsV (timestamp 2024 1 8 0 0 0),
                   NumV 7, StrV ''4-7 days'']),
              (2, [TsV (timestamp 2024 1 1 0 0 0), TsV (timestamp 2024 1 9 0 0 0),
                   NumV 8, StrV ''8+ days'']),
              (3, [TsV (timestamp 2024 1 1 0 0 0), Null, Null, StrV ''Unknown''])]\<rparr>"
    by code_simp
qed


text \<open>
  The theorem at a table with deliveries after 2 days 22 hours 30 minutes and after 18
  days, one two days before the purchase, and one missing.
\<close>

theorem add_delivery_metrics_days_and_category_witness:
  "\<exists>df'. add_delivery_metrics late_example = Inr df' \<and>
     map fst (rows df') = [0, 1, 2, 3] \<and>
     fnum_of_cell (column_cells df' ''delivery_speed_days'' ! 0) = Fin 2 \<and>
     column_cells df' ''delivery_category'' ! 0 = StrV ''1-3 days'' \<and>
     fnum_of_cell (column_cells df' ''delivery_speed_days'' ! 1) = Fin 18 \<and>
     column_cells df' ''delivery_category'' ! 1 = StrV ''8+ days'' \<and>
     fnum_of_cell (column_cells df' ''delivery_speed_days'' ! 2) = Fin (- 2) \<and>
     column_cells df' ''delivery_category'' ! 2 = StrV ''1-3 days'' \<and>
     column_cells df' ''delivery_speed_days'' ! 3 = Null \<and>
     column_cells df' ''delivery_category'' ! 3 = StrV ''Unknown''"
proof -
  have h: "wf_df late_example \<and>
    ''order_delivered_customer_date'' \<in> set (columns late_example) \<and>
    ''order_purchase_timestamp'' \<in> set (columns late_example) \<and>
    list_all is_ts (column_cells late_example ''order_delivered_customer_date'') \<and>
    list_all is_ts (column_cells late_example ''order_purchase_timestamp'')"
    by code_simp
  have len: "length (rows late_example) = 4" by code_simp
  have D: "column_cells late_example ''order_delivered_customer_date'' =
      [TsV (timestamp 2023 6 4 9 0 0), TsV (timestamp 2023 6 20 0 0 0), TsV (timestamp 2023 6 3 0 0 0), Null]"
    by code_simp
  have P: "column_cells late_example ''order_purchase_timestamp'' =
      [TsV (timestamp 2023 6 1 10 30 0), TsV (timestamp 2023 6 1 10 30 0), TsV (timestamp 2023 6 5 0 0 0), TsV (timestamp 2023 6 5 0 0 0)]"
    by code_simp
  have L: "map fst (rows late_example) = [0, 1, 2, 3]" by code_simp
  have d0: "(timestamp 2023 6 4 9 0 0 - timestamp 2023 6 1 10 30 0) div ns_per_day = 2" by code_simp
  have d1: "(timestamp 2023 6 20 0 0 0 - timestamp 2023 6 1 10 30 0) div ns_per_day = 18" by code_simp
  have d2: "(timestamp 2023 6 3 0 0 0 - timestamp 2023 6 5 0 0 0) div ns_per_day = - 2" by code_simp
  from add_delivery_metrics_days_and_category[of late_example, THEN conjunct1, rule_format, OF h]
  obtain df' where r: "add_delivery_metrics late_example = Inr df'"
    and l: "map fst (rows df') = map fst (rows late_example)"
    and a: "\<forall>i<length (rows late_example).
          (case (column_cells late_example ''order_delivered_customer_date'' ! i,
                column_cells late_example ''order_purchase_timestamp'' ! i) of
            (TsV d, TsV p) \<Rightarrow>
              fnum_of_cell (column_cells df' ''delivery_speed_days'' ! i) =
                Fin (of_int ((d - p) div ns_per_day)) \<and>
              column_cells df' ''delivery_category'' ! i =
                StrV (if (d - p) div ns_per_day \<le> 3 then ''1-3 days''
                      else if (d - p) div ns_per_day \<le> 7 then ''4-7 days''
                      else ''8+ days'')
          | _ \<Rightarrow>
              column_cells df' ''delivery_speed_days'' ! i = Null \<and>
              column_cells df' ''delivery_category'' ! i = StrV ''Unknown'')"
    by (elim exE conjE)
  have a0: "fnum_of_cell (column_cells df' ''delivery_speed_days'' ! 0) = Fin 2 \<and>
     column_cells df' ''delivery_category'' ! 0 = StrV ''1-3 days''"
    using a[rule_format, of 0] by (simp add: len D P d0)
  have a1: "fnum_of_cell (column_cells df' ''delivery_speed_days'' ! 1) = Fin 18 \<and>
     column_cells df' ''delivery_category'' ! 1 = StrV ''8+ days''"
    using a[rule_format, of 1] by (simp add: len D P d1)
  have a2: "fnum_of_cell (column_cells df' ''delivery_speed_days'' ! 2) = Fin (- 2) \<and>
     column_cells df' ''delivery_category'' ! 2 = StrV ''1-3 days''"
    using a[rule_format, of 2] by (simp add: len D P d2)
  have a3: "column_cells df' ''delivery_speed_days'' ! 3 = Null \<and>
     column_cells df' ''delivery_category'' ! 3 = StrV ''Unknown''"
    using a[rule_format, of 3] by (simp add: len D P)
  from r l L a0 a1 a2 a3 show ?thesis by simp
qed

text \<open>
  C10. A negative day count is categorised \<^verbatim>\<open>1-3 days\<close>: the categorisation has no
  lower bound. A delivery timestamp earlier than the purchase timestamp gives such a
  count.
\<close>

theorem negative_days_are_1_3_days:
  "(\<forall>q<0. categorize_delivery_speed (Fin q) = ''1-3 days'') \<and>
   (\<forall>d p. d < p \<longrightarrow>
      (\<exists>n<0. delivery_days (TsV d) (TsV p) = Inr (Some n) \<and>
         categorize_delivery_speed (fnum_of_cell (IntV n)) = ''1-3 days''))"
proof (intro conjI allI impI)
  fix q :: rat assume "q < 0"
  then show "categorize_delivery_speed (Fin q) = ''1-3 days''"
    by (simp add: categorize_delivery_speed_def)
next
  fix d p :: int assume "d < p"
  then have neg: "(d - p) div ns_per_day < 0"
    by (simp add: ns_per_day_def div_neg_pos_less0)
  then have "categorize_delivery_speed (fnum_of_cell (IntV ((d - p) div ns_per_day))) = ''1-3 days''"
    by (simp add: categorize_int)
  with neg show "\<exists>n<0. delivery_days (TsV d) (TsV p) = Inr (Some n) \<and>
         categorize_delivery_speed (fnum_of_cell (IntV n)) = ''1-3 days''"
    by simp
qed

text \<open>The theorem at a count of minus two and a half days, and at a delivery two days early.\<close>

theorem negative_days_are_1_3_days_witness:
  "categorize_delivery_speed (Fin (- 5 / 2)) = ''1-3 days'' \<and>
   (\<exists>n<0. delivery_days (TsV (timestamp 2023 6 3 0 0 0)) (TsV (timestamp 2023 6 5 0 0 0)) = Inr (Some n) \<and>
      categorize_delivery_speed (fnum_of_cell (IntV n)) = ''1-3 days'')"
proof -
  have lt: "timestamp 2023 6 3 0 0 0 < timestamp 2023 6 5 0 0 0" by code_simp
  have neg: "(- 5 / 2 :: rat) < 0" by simp
  from negative_days_are_1_3_days[THEN conjunct1, rule_format, OF neg]
    negative_days_are_1_3_days[THEN conjunct2, rule_format, OF lt]
  show ?thesis by simp
qed

text \<open>
  C7. \<open>filter_by_date_range\<close> is idempotent: when a call has returned a table, the call
  with the same column and bounds on that table returns a table equal to it.
\<close>

theorem filter_by_date_range_idempotent:
  "df < length h \<Longrightarrow>
   filter_by_date_range h df date_column start_year end_year start_month end_month = Inr (h1, r1) \<Longrightarrow>
   \<exists>h2 r2. filter_by_date_range h1 r1 date_column start_year end_year start_month end_month = Inr (h2, r2) \<and>
     h2 ! r2 = h1 ! r1"
  using filter_idem[of df h date_column start_year end_year start_month end_month "(h1, r1)"]
  by (auto simp: table_of_def)

text \<open>
  The theorem at the orders of the first half of 2023: one row is left, and filtering
  it again gives the same table.
\<close>

theorem filter_by_date_range_idempotent_witness:
  "\<exists>h1 r1 h2 r2.
     filter_by_date_range [range_example] 0 ''order_purchase_timestamp''
       (Some 2023) (Some 2023) None (Some 6) = Inr (h1, r1) \<and>
     rows (h1 ! r1) = [(1, [StrV ''b'', NumV 20, IntV 2023, IntV 3])] \<and>
     filter_by_date_range h1 r1 ''order_purchase_timestamp''
       (Some 2023) (Some 2023) None (Some 6) = Inr (h2, r2) \<and>
     h2 ! r2 = h1 ! r1"
proof -
  have "map_sum id (\<lambda>s. rows (table_of s))
      (filter_by_date_range [range_example] 0 ''order_purchase_timestamp''
        (Some 2023) (Some 2023) None (Some 6)) =
      Inr [(1, [StrV ''b'', NumV 20, IntV 2023, IntV 3])]"
    by code_simp
  then have "\<exists>h1 r1. filter_by_date_range [range_example] 0 ''order_purchase_timestamp''
       (Some 2023) (Some 2023) None (Some 6) = Inr (h1, r1) \<and>
     rows (h1 ! r1) = [(1, [StrV ''b'', NumV 20, IntV 2023, IntV 3])]"
    by (cases "filter_by_date_range [range_example] 0 ''order_purchase_timestamp''
        (Some 2023) (Some 2023) None (Some 6)") (auto simp: table_of_def)
  then obtain h1 r1 where
    1: "filter_by_date_range [range_example] 0 ''order_purchase_timestamp''
       (Some 2023) (Some 2023) None (Some 6) = Inr (h1, r1)"
    and 2: "rows (h1 ! r1) = [(1, [StrV ''b'', NumV 20, IntV 2023, IntV 3])]" by blast
  have "(0::nat) < length [range_example]" by simp
  from filter_by_date_range_idempotent[OF this 1] 1 2 show ?thesis by blast
qed

text \<open>
  C8. A call of \<open>filter_by_date_range\<close> on a table of the store either raises
  \<^verbatim>\<open>TypeError\<close> (a bound compared with a column that is not numeric) or returns a new
  object and leaves every object of the store as it was, the input table among them;
  the returned table has the columns of the input and a selection of its rows, in their
  order. On numeric year and month columns it returns.
\<close>

theorem filter_by_date_range_frame:
  "df < length h \<longrightarrow>
   (case filter_by_date_range h df date_column start_year end_year start_month end_month of
      Inl e \<Rightarrow> e = TypeError
    | Inr (h', res) \<Rightarrow>
        (\<forall>i<length h. h' ! i = h ! i) \<and> length h \<le> res \<and> res < length h' \<and>
        columns (h' ! res) = columns (h ! df) \<and>
        (\<exists>P. rows (h' ! res) = filter P (rows (h ! df))) \<and>
        set (rows (h' ! res)) \<subseteq> set (rows (h ! df))) \<and>
   (list_all is_numeric (column_cells (h ! df) (date_column @ ''_year'')) \<and>
    list_all is_numeric (column_cells (h ! df) (date_column @ ''_month'')) \<longrightarrow>
    (\<exists>s. filter_by_date_range h df date_column start_year end_year start_month end_month = Inr s))"
proof (intro impI conjI)
  assume df: "df < length h"
  show "case filter_by_date_range h df date_column start_year end_year start_month end_month of
      Inl e \<Rightarrow> e = TypeError
    | Inr (h', res) \<Rightarrow>
        (\<forall>i<length h. h' ! i = h ! i) \<and> length h \<le> res \<and> res < length h' \<and>
        columns (h' ! res) = columns (h ! df) \<and>
        (\<exists>P. rows (h' ! res) = filter P (rows (h ! df))) \<and>
        set (rows (h' ! res)) \<subseteq> set (rows (h ! df))"
  proof (cases "filter_by_date_range h df date_column start_year end_year start_month end_month")
    case (Inl e)
    then show ?thesis using filter_Inl[OF Inl] by simp
  next
    case (Inr s)
    obtain h' res where s: "s = (h', res)" by (cases s)
    from filter_narrows[OF df Inr]
    obtain ext P where "res < length h'" "h' = (h @ [h ! df]) @ ext" "length h \<le> res"
      "columns (h' ! res) = columns (h ! df)" "rows (h' ! res) = filter P (rows (h ! df))"
      unfolding narrows_def s by (auto simp: new_object_start valid_ref_def table_of_def)
    moreover from this have "\<forall>i<length h. h' ! i = h ! i" "set (rows (h' ! res)) \<subseteq> set (rows (h ! df))"
      by (auto simp: nth_append)
    ultimately show ?thesis using Inr s by auto
  qed
next
  assume "df < length h"
    and "list_all is_numeric (column_cells (h ! df) (date_column @ ''_year'')) \<and>
    list_all is_numeric (column_cells (h ! df) (date_column @ ''_month''))"
  then show "\<exists>s. filter_by_date_range h df date_column start_year end_year start_month end_month = Inr s"
    using filter_total by blast
qed

text \<open>The theorem at the orders from 2023 on.\<close>

theorem filter_by_date_range_frame_witness:
  "\<exists>h' res.
     filter_by_date_range [range_example] 0 ''order_purchase_timestamp''
       (Some 2023) None None None = Inr (h', res) \<and>
     rows (h' ! res) = [(1, [StrV ''b'', NumV 20, IntV 2023, IntV 3]),
                        (2, [StrV ''c'', NumV 30, IntV 2023, IntV 9]),
                        (3, [StrV ''d'', NumV 40, IntV 2024, IntV 1])] \<and>
     h' ! 0 = range_example \<and> 0 < res \<and> columns (h' ! res) = columns range_example \<and>
     set (rows (h' ! res)) \<subseteq> set (rows range_example)"
proof -
  have "map_sum id (\<lambda>s. rows (table_of s))
      (filter_by_date_range [range_example] 0 ''order_purchase_timestamp''
        (Some 2023) None None None) =
      Inr [(1, [StrV ''b'', NumV 20, IntV 2023, IntV 3]),
           (2, [StrV ''c'', NumV 30, IntV 2023, IntV 9]),
           (3, [StrV ''d'', NumV 40, IntV 2024, IntV 1])]"
    by code_simp
  then have "\<exists>h' res. filter_by_date_range [range_example] 0 ''order_purchase_timestamp''
       (Some 2023) None None None = Inr (h', res) \<and>
     rows (h' ! res) = [(1, [StrV ''b'', NumV 20, IntV 2023, IntV 3]),
                        (2, [StrV ''c'', NumV 30, IntV 2023, IntV 9]),
                        (3, [StrV ''d'', NumV 40, IntV 2024, IntV 1])]"
    by (cases "filter_by_date_range [range_example] 0 ''order_purchase_timestamp''
        (Some 2023) None None None") (auto simp: table_of_def)
  then obtain h' res where
    1: "filter_by_date_range [range_example] 0 ''order_purchase_timestamp''
       (Some 2023) None None None = Inr (h', res)"
    and 2: "rows (h' ! res) = [(1, [StrV ''b'', NumV 20, IntV 2023, IntV 3]),
                        (2, [StrV ''c'', NumV 30, IntV 2023, IntV 9]),
                        (3, [StrV ''d'', NumV 40, IntV 2024, IntV 1])]" by blast
  have 0: "(0::nat) < length [range_example]" by simp
  have num: "list_all is_numeric
      (column_cells ([range_example] ! 0) (''order_purchase_timestamp'' @ ''_year'')) \<and>
    list_all is_numeric
      (column_cells ([range_example] ! 0) (''order_purchase_timestamp'' @ ''_month''))"
    by code_simp
  note returns = filter_by_date_range_frame[of 0 "[range_example]" "''order_purchase_timestamp''"
      "Some 2023" None None None, rule_format, OF 0, THEN conjunct2, rule_format, OF num]
  from filter_by_date_range_frame[of 0 "[range_example]" "''order_purchase_timestamp''"
      "Some 2023" None None None, rule_format, OF 0, THEN conjunct1] 1
  have "(\<forall>i<length [range_example]. h' ! i = [range_example] ! i) \<and>
        length [range_example] \<le> res \<and> res < length h' \<and>
        columns (h' ! res) = columns ([range_example] ! 0) \<and>
        (\<exists>P. rows (h' ! res) = filter P (rows ([range_example] ! 0))) \<and>
        set (rows (h' ! res)) \<subseteq> set (rows ([range_example] ! 0))"
    by simp
  then have "h' ! 0 = range_example \<and> 0 < res \<and> columns (h' ! res) = columns range_example \<and>
     set (rows (h' ! res)) \<subseteq> set (rows range_example)"
    by simp
  with 1 2 show ?thesis by blast
qed

text \<open>
  C9. A bound of 0 is the same as no bound, for each of the four bounds: the result of
  the call, store included, is the same. With \<^verbatim>\<open>end_year=0\<close> and \<^verbatim>\<open>end_month=0\<close> the
  orders of 2022 to 2024 are all kept.
\<close>

theorem zero_bound_is_no_bound:
  "filter_by_date_range h df date_column (Some 0) end_year start_month end_month =
     filter_by_date_range h df date_column None end_year start_month end_month \<and>
   filter_by_date_range h df date_column start_year (Some 0) start_month end_month =
     filter_by_date_range h df date_column start_year None start_month end_month \<and>
   filter_by_date_range h df date_column start_year end_year (Some 0) end_month =
     filter_by_date_range h df date_column start_year end_year None end_month \<and>
   filter_by_date_range h df date_column start_year end_year start_month (Some 0) =
     filter_by_date_range h df date_column start_year end_year start_month None \<and>
   (\<exists>h' res. filter_by_date_range [range_example] 0 ''order_purchase_timestamp''
       None (Some 0) None (Some 0) = Inr (h', res) \<and> h' ! res = range_example)"
proof -
  have z: "\<And>c cmp s. bound_step (Some 0) c cmp s = bound_step None c cmp s"
    by (simp add: bound_step_def truthy_def)
  have "map_sum id table_of
      (filter_by_date_range [range_example] 0 ''order_purchase_timestamp''
        None (Some 0) None (Some 0)) = Inr range_example"
    by code_simp
  then have "\<exists>h' res. filter_by_date_range [range_example] 0 ''order_purchase_timestamp''
       None (Some 0) None (Some 0) = Inr (h', res) \<and> h' ! res = range_example"
    by (cases "filter_by_date_range [range_example] 0 ''order_purchase_timestamp''
        None (Some 0) None (Some 0)") (auto simp: table_of_def)
  then show ?thesis by (simp add: filter_by_date_range_def z)
qed

text \<open>
  C4, as amended. When \<open>create_sales_dataset\<close> returns the sales table, its row count is
  the number of pairs of an order\_items row and an orders row with the same
  \<^verbatim>\<open>order_id\<close>. Where \<^verbatim>\<open>order_id\<close> is unique in orders, that is the number of
  order\_items rows whose \<^verbatim>\<open>order_id\<close> occurs in orders, so at most the number of
  order\_items rows; rows whose \<^verbatim>\<open>order_id\<close> is in one table only are dropped.
\<close>

theorem sales_row_count:
  assumes "create_sales_dataset conv self = Inr sales"
    and "datasets self ''order_items'' = Some order_items"
    and "datasets self ''orders'' = Some ords"
  shows "length (rows sales) =
     sum_list (map (\<lambda>l. length (filter
        (\<lambda>r. cell_of (columns ords) r ''order_id'' = cell_of (columns order_items) l ''order_id'')
        (rows ords))) (rows order_items)) \<and>
     (distinct (column_cells ords ''order_id'') \<longrightarrow>
        length (rows sales) =
          length (filter (\<lambda>l. cell_of (columns order_items) l ''order_id'' \<in>
                     set (column_cells ords ''order_id'')) (rows order_items)) \<and>
        length (rows sales) \<le> length (rows order_items))"
proof (intro conjI impI)
  show count: "length (rows sales) =
     sum_list (map (\<lambda>l. length (filter
        (\<lambda>r. cell_of (columns ords) r ''order_id'' = cell_of (columns order_items) l ''order_id'')
        (rows ords))) (rows order_items))"
    using assms by (rule create_sales_dataset_count)
  assume "distinct (column_cells ords ''order_id'')"
  then have d: "distinct (map (\<lambda>r. cell_of (columns ords) r ''order_id'') (rows ords))"
    by (simp add: column_cells_def)
  show eq: "length (rows sales) =
          length (filter (\<lambda>l. cell_of (columns order_items) l ''order_id'' \<in>
                     set (column_cells ords ''order_id'')) (rows order_items))"
    unfolding count length_filter_distinct_key[OF d] sum_list_indicator
    by (simp add: column_cells_def)
  show "length (rows sales) \<le> length (rows order_items)"
    unfolding eq by (rule length_filter_le)
qed

text \<open>The theorem at the three orders and four items: three rows.\<close>

theorem sales_row_count_witness:
  "\<exists>sales. create_sales_dataset to_datetime_iso shop_loader = Inr sales \<and>
     distinct (column_cells shop_orders ''order_id'') \<and>
     length (filter (\<lambda>l. cell_of (columns shop_order_items) l ''order_id'' \<in>
                     set (column_cells shop_orders ''order_id'')) (rows shop_order_items)) = 3 \<and>
     length (rows sales) = 3 \<and>
     length (rows sales) \<le> length (rows shop_order_items)"
proof -
  have "map_sum id (\<lambda>d. ()) (create_sales_dataset to_datetime_iso shop_loader) = Inr ()"
    by code_simp
  then obtain sales where run: "create_sales_dataset to_datetime_iso shop_loader = Inr sales"
    by (cases "create_sales_dataset to_datetime_iso shop_loader") auto
  have i: "datasets shop_loader ''order_items'' = Some shop_order_items"
    and ob: "datasets shop_loader ''orders'' = Some shop_orders"
    by (simp_all add: shop_loader_def)
  have d: "distinct (column_cells shop_orders ''order_id'')" by code_simp
  have n: "length (filter (\<lambda>l. cell_of (columns shop_order_items) l ''order_id'' \<in>
                     set (column_cells shop_orders ''order_id'')) (rows shop_order_items)) = 3"
    by code_simp
  from sales_row_count[OF run i ob, THEN conjunct2, rule_format, OF d] run d n
  show ?thesis by simp
qed

text \<open>
  C4 as stated fails: the row count is not bounded by the number of orders. One order
  with two items gives two rows, more than \<open>min 2 1\<close>.
\<close>

theorem sales_row_count_exceeds_orders:
  "\<exists>sales. create_sales_dataset to_datetime_iso loader_example = Inr sales \<and>
     datasets loader_example ''order_items'' = Some order_items_example \<and>
     datasets loader_example ''orders'' = Some orders_example \<and>
     length (rows sales) = 2 \<and>
     min (length (rows order_items_example)) (length (rows orders_example)) = 1 \<and>
     \<not> length (rows sales) \<le> min (length (rows order_items_example)) (length (rows orders_example))"
proof -
  have "map_sum id (\<lambda>d. length (rows d)) (create_sales_dataset to_datetime_iso loader_example) = Inr 2"
    by code_simp
  then obtain sales where run: "create_sales_dataset to_datetime_iso loader_example = Inr sales"
    and n: "length (rows sales) = 2"
    by (cases "create_sales_dataset to_datetime_iso loader_example") auto
  have i: "datasets loader_example ''order_items'' = Some order_items_example"
    and ob: "datasets loader_example ''orders'' = Some orders_example"
    by (simp_all add: loader_example_def)
  have m: "min (length (rows order_items_example)) (length (rows orders_example)) = 1"
    by (simp add: order_items_example_def orders_example_def)
  from run n i ob m show ?thesis by simp
qed

section \<open>Facts about dictionaries and aggregates\<close>

lemma map_of_dict_set: "map_of (dict_set d k v) = (map_of d)(k \<mapsto> v)"
  by (induction d) (auto simp: fun_eq_iff)

lemma keys_dict_set:
  "map fst (dict_set d k v) = (if k \<in> set (map fst d) then map fst d else map fst d @ [k])"
  by (induction d) force+

lemma group_keys_set: "set (group_keys ks) = set ks"
  by (simp add: group_keys_def)

lemma group_keys_distinct: "distinct (group_keys ks)"
  by (simp add: group_keys_def)

lemma group_keys_sorted_list: "group_keys ks = sorted_list_of_set (set ks)"
  by (simp add: group_keys_def sorted_list_of_set_sort_remdups)

lemma group_keys_length: "length (group_keys ks) = card (set ks)"
  by (simp add: group_keys_def length_remdups_card_conv)

lemma group_keys_Nil: "group_keys ks = [] \<longleftrightarrow> ks = []"
  by (metis group_keys_set set_empty)

lemma sum_list_group_keys:
  "sum_list (map f (group_keys ks)) = sum f (set ks)"
  using sum_list_distinct_conv_sum_set[OF group_keys_distinct, of f ks]
  by (simp add: group_keys_set)

lemma nunique_card: "nunique xs = int (card (set xs))"
  by (simp add: nunique_def length_remdups_card_conv)

lemma mean_order_totals:
  assumes "data \<noteq> []"
  shows "mean (order_totals data) =
     Fin ((\<Sum>k\<in>order_id ` set data. (\<Sum>r\<leftarrow>filter (\<lambda>r. order_id r = k) data. price r)) /
          of_nat (card (order_id ` set data)))"
proof -
  have "order_totals data \<noteq> []"
    using assms by (simp add: order_totals_def group_keys_Nil)
  then show ?thesis
    by (simp add: mean_def) (simp add: order_totals_def sum_list_group_keys group_keys_length)
qed

lemma metrics_literal:
  "map_of (dict_literal [(p @ ''_total_revenue'', a), (p @ ''_avg_order_value'', b),
      (p @ ''_total_orders'', c), (p @ ''_total_items'', d)]) =
     [p @ ''_total_revenue'' \<mapsto> a, p @ ''_avg_order_value'' \<mapsto> b,
      p @ ''_total_orders'' \<mapsto> c, p @ ''_total_items'' \<mapsto> d]"
  by (auto simp: dict_literal_def dict_update_def map_of_dict_set fun_eq_iff)

lemma metrics_literal_keys:
  "map fst (dict_literal [(p @ ''_total_revenue'', a), (p @ ''_avg_order_value'', b),
      (p @ ''_total_orders'', c), (p @ ''_total_items'', d)]) =
     [p @ ''_total_revenue'', p @ ''_avg_order_value'', p @ ''_total_orders'', p @ ''_total_items'']"
  by (simp add: dict_literal_def dict_update_def)





lemma map_of_dict_update:
  "map_of (dict_update d kvs) k =
     (case map_of (rev kvs) k of Some v \<Rightarrow> Some v | None \<Rightarrow> map_of d k)"
proof (induction kvs arbitrary: d)
  case Nil
  then show ?case by (simp add: dict_update_def)
next
  case (Cons kv kvs)
  have "dict_update d (kv # kvs) = dict_update (dict_set d (fst kv) (snd kv)) kvs"
    by (simp add: dict_update_def)
  then show ?case
    using Cons.IH[of "dict_set d (fst kv) (snd kv)"]
    by (cases kv) (auto simp: map_of_dict_set map_of_append map_add_def split: option.splits)
qed

lemma nunique_zero: "nunique xs = 0 \<longleftrightarrow> xs = []"
  by (simp add: nunique_def)

lemma mean_Fin: "xs \<noteq> [] \<Longrightarrow> mean xs = Fin (sum_list xs / of_nat (length xs))"
  by (simp add: mean_def)

lemma order_totals_Nil: "order_totals data = [] \<longleftrightarrow> data = []"
  by (simp add: order_totals_def group_keys_Nil)

section \<open>Facts about monthly trends\<close>

lemma group_keys_cong: "set xs = set ys \<Longrightarrow> group_keys xs = group_keys ys"
  by (simp add: group_keys_sorted_list)

lemma totals_months:
  "group_keys (map (\<lambda>t. fst (fst t)) (month_order_totals data)) =
   group_keys (map order_purchase_timestamp_month data)"
proof (rule group_keys_cong)
  show "set (map (\<lambda>t. fst (fst t)) (month_order_totals data)) =
        set (map order_purchase_timestamp_month data)"
    by (force simp: month_order_totals_def group_keys_set image_iff)
qed

lemma fdiv_NaN: "fdiv x NaN = NaN"
  by (cases x) simp_all

lemma pct_change_length: "length (pct_change xs) = length xs"
  by (simp add: pct_change_def)

lemma pct_change_first: "xs \<noteq> [] \<Longrightarrow> pct_change xs ! 0 = NaN"
  by (cases xs) (simp_all add: pct_change_def fdiv_NaN)

lemma pct_change_later:
  "0 < i \<Longrightarrow> i < length xs \<Longrightarrow>
   pct_change xs ! i = fsub (fdiv (xs ! i) (xs ! (i - 1))) (Fin 1)"
  by (cases i) (simp_all add: pct_change_def)

lemma month_aov_value:
  assumes "m \<in> order_purchase_timestamp_month ` set data"
  shows "month_aov data m =
     Fin ((\<Sum>k\<in>order_id ` {r \<in> set data. order_purchase_timestamp_month r = m}.
            (\<Sum>r\<leftarrow>filter (\<lambda>r. order_purchase_timestamp_month r = m \<and> order_id r = k) data. price r)) /
          of_nat (card (order_id ` {r \<in> set data. order_purchase_timestamp_month r = m})))"
proof -
  let ?keys = "group_keys (map (\<lambda>r. (order_purchase_timestamp_month r, order_id r)) data)"
  let ?g = "\<lambda>k. sum_list (map price (filter
            (\<lambda>r. (order_purchase_timestamp_month r, order_id r) = k) data))"
  let ?ks = "filter (\<lambda>k. fst k = m) ?keys"
  let ?O = "order_id ` {r \<in> set data. order_purchase_timestamp_month r = m}"
  have vals: "map snd (filter (\<lambda>t. fst (fst t) = m) (month_order_totals data)) = map ?g ?ks"
    by (simp add: month_order_totals_def filter_map o_def)
  have dist: "distinct ?ks" by (simp add: group_keys_distinct)
  have set_ks: "set ?ks = Pair m ` ?O"
    by (auto simp: group_keys_set image_iff)
  have inj: "inj_on (Pair m) ?O" by (simp add: inj_on_def)
  have "?O \<noteq> {}" using assms by auto
  then have ne: "?ks \<noteq> []" using set_ks by (metis image_is_empty set_empty)
  have len: "length ?ks = card ?O"
    using distinct_card[OF dist] set_ks card_image[OF inj] by simp
  have "sum_list (map ?g ?ks) = sum ?g (set ?ks)"
    using dist by (rule sum_list_distinct_conv_sum_set)
  also have "\<dots> = (\<Sum>k\<in>?O. ?g (m, k))"
    unfolding set_ks using sum.reindex[OF inj, of ?g] by (simp add: o_def)
  finally have s: "sum_list (map ?g ?ks) = (\<Sum>k\<in>?O. ?g (m, k))" .
  have "month_aov data m = Fin (sum_list (map ?g ?ks) / of_nat (length ?ks))"
    unfolding month_aov_def vals using ne by (simp add: mean_def)
  then show ?thesis unfolding s len by simp
qed


lemma trends_length:
  "length (calculate_monthly_trends data0 year) =
   length (group_keys (map order_purchase_timestamp_month (filtered_input data0 year)))"
  by (simp add: calculate_monthly_trends_def Let_def filtered_input_def)

lemma trends_nth:
  assumes "data = filtered_input data0 year"
    and "months = group_keys (map order_purchase_timestamp_month data)"
    and "i < length months"
  shows "calculate_monthly_trends data0 year ! i =
     \<lparr>month = months ! i,
      revenue = month_revenue data (months ! i),
      orders = month_orders data (months ! i),
      avg_order_value = month_aov data (months ! i),
      revenue_growth = fmul (pct_change (map (month_revenue data) months) ! i) (Fin 100),
      order_growth = fmul (pct_change (map (\<lambda>m. Fin (of_int (month_orders data m))) months) ! i) (Fin 100),
      aov_growth = fmul (pct_change (map (month_aov data) months) ! i) (Fin 100)\<rparr>"
proof -
  have d: "(if truthy year then filter (\<lambda>r. order_purchase_timestamp_year r = the year) data0
      else data0) = data"
    using assms(1) by (simp add: filtered_input_def)
  have m: "group_keys (map (\<lambda>t. fst (fst t)) (month_order_totals data)) = months"
    using assms(2) by (simp add: totals_months)
  have mr: "(\<lambda>m. Fin (sum_list (map price
              (filter (\<lambda>r. order_purchase_timestamp_month r = m) data)))) = month_revenue data"
    by (simp add: month_revenue_def fun_eq_iff)
  have mo: "(\<lambda>m. nunique (map order_id
              (filter (\<lambda>r. order_purchase_timestamp_month r = m) data))) = month_orders data"
    by (simp add: month_orders_def fun_eq_iff)
  have ma: "(\<lambda>m. mean (map snd (filter (\<lambda>t. fst (fst t) = m) (month_order_totals data)))) =
      month_aov data"
    by (simp add: month_aov_def fun_eq_iff)
  have "calculate_monthly_trends data0 year =
     map (\<lambda>i. \<lparr>month = months ! i,
      revenue = map (month_revenue data) months ! i,
      orders = map (month_orders data) months ! i,
      avg_order_value = map (month_aov data) months ! i,
      revenue_growth = map (\<lambda>g. fmul g (Fin 100)) (pct_change (map (month_revenue data) months)) ! i,
      order_growth = map (\<lambda>g. fmul g (Fin 100))
         (pct_change (map (\<lambda>n. Fin (of_int n)) (map (month_orders data) months))) ! i,
      aov_growth = map (\<lambda>g. fmul g (Fin 100)) (pct_change (map (month_aov data) months)) ! i\<rparr>)
       [0..<length months]"
    unfolding calculate_monthly_trends_def Let_def d m mr mo ma
    using assms(2) by simp
  then show ?thesis
    using assms(3) by (simp add: pct_change_length o_def)
qed

section \<open>Facts about sorting and product performance\<close>

lemma map_insort_key:
  "map g (insort_key (\<lambda>x. f (g x)) x xs) = insort_key f (g x) (map g xs)"
  by (induction xs) simp_all

lemma map_sort_key: "map g (sort_key (\<lambda>x. f (g x)) xs) = sort_key f (map g xs)"
  by (induction xs) (simp_all add: map_insort_key)

lemma insort_key_cong_set:
  "f x = f' x \<Longrightarrow> (\<And>y. y \<in> set xs \<Longrightarrow> f y = f' y) \<Longrightarrow> insort_key f x xs = insort_key f' x xs"
  by (induction xs) simp_all

lemma sort_key_cong_set:
  "(\<And>y. y \<in> set xs \<Longrightarrow> f y = f' y) \<Longrightarrow> sort_key f xs = sort_key f' xs"
proof (induction xs)
  case Nil
  then show ?case by simp
next
  case (Cons x xs)
  then have "sort_key f xs = sort_key f' xs" by simp
  moreover have "insort_key f x (sort_key f' xs) = insort_key f' x (sort_key f' xs)"
    using Cons.prems by (intro insort_key_cong_set) simp_all
  ultimately show ?case by simp
qed

lemma distinct_map_insort_key:
  "distinct (map g (insort_key h x xs)) \<longleftrightarrow> g x \<notin> g ` set xs \<and> distinct (map g xs)"
  by (induction xs) (auto simp: set_insort_key)

lemma distinct_map_sort_key: "distinct (map g (sort_key h xs)) \<longleftrightarrow> distinct (map g xs)"
  by (induction xs) (simp_all add: distinct_map_insort_key)

lemma zip_upt_nth:
  "p \<in> set (zip vs [0..<length vs]) \<Longrightarrow> snd p < length vs \<and> vs ! snd p = fst p"
  by (cases p) (auto simp: set_zip)

lemma stable_argsort_descending: "descending_argsort stable_argsort"
  unfolding descending_argsort_def
proof (intro allI conjI)
  fix vs :: "rat list"
  let ?zs = "zip vs [0..<length vs]"
  let ?S = "sort_key (\<lambda>p. - fst p) ?zs"
  show "distinct (stable_argsort vs)"
    by (simp add: stable_argsort_def distinct_map_sort_key)
  have "set (stable_argsort vs) = snd ` set ?zs"
    by (simp add: stable_argsort_def)
  also have "\<dots> = set (map snd ?zs)" by (simp only: set_map)
  also have "\<dots> = {..<length vs}" by (simp add: lessThan_atLeast0)
  finally show "set (stable_argsort vs) = {..<length vs}" .
  have "\<And>p. p \<in> set ?S \<Longrightarrow> vs ! snd p = fst p"
    using zip_upt_nth[of _ vs] by simp
  then have eq: "map (\<lambda>p. vs ! snd p) ?S = map fst ?S"
    by (intro map_cong refl)
  have "sorted (map (\<lambda>p. - fst p) ?S)" by (rule sorted_sort_key)
  then have "sorted_wrt (\<lambda>a b. b \<le> a) (map fst ?S)"
    by (simp add: sorted_wrt_map)
  then show "sorted_wrt (\<lambda>a b. b \<le> a) (map (\<lambda>i. vs ! i) (stable_argsort vs))"
    unfolding stable_argsort_def map_map o_def eq .
qed

lemma sort_values_desc_stable:
  "sort_values_desc stable_argsort key rs = sort_key (\<lambda>r. - key r) rs"
proof -
  let ?zs = "zip (map key rs) [0..<length rs]"
  let ?g = "\<lambda>p. rs ! snd p"
  have k: "- fst p = - key (?g p)" if "p \<in> set ?zs" for p
    using zip_upt_nth[of p "map key rs"] that by auto
  have "map ?g ?zs = map (\<lambda>i. rs ! i) (map snd ?zs)" by (simp only: map_map o_def)
  also have "\<dots> = rs" by (simp add: map_nth)
  finally have rs: "map ?g ?zs = rs" .
  have "sort_values_desc stable_argsort key rs = map ?g (sort_key (\<lambda>p. - fst p) ?zs)"
    by (simp add: sort_values_desc_def stable_argsort_def)
  also have "\<dots> = map ?g (sort_key (\<lambda>p. - key (?g p)) ?zs)"
    using sort_key_cong_set[of ?zs "\<lambda>p. - fst p" "\<lambda>p. - key (?g p)", OF k] by simp
  also have "\<dots> = sort_key (\<lambda>r. - key r) (map ?g ?zs)"
    by (rule map_sort_key)
  finally show ?thesis by (simp only: rs)
qed

lemma sort_values_desc_perm:
  assumes "descending_argsort argsort"
  shows "length (sort_values_desc argsort key rs) = length rs"
    and "set (sort_values_desc argsort key rs) = set rs"
    and "sorted_wrt (\<lambda>a b. key b \<le> key a) (sort_values_desc argsort key rs)"
proof -
  let ?p = "argsort (map key rs)"
  from assms have d: "distinct ?p" and s: "set ?p = {..<length rs}"
    and o: "sorted_wrt (\<lambda>a b. b \<le> a) (map (\<lambda>i. map key rs ! i) ?p)"
    unfolding descending_argsort_def by (simp_all del: sorted_wrt_map)
  have "length ?p = card (set ?p)" using d by (simp add: distinct_card)
  then show "length (sort_values_desc argsort key rs) = length rs"
    using s by (simp add: sort_values_desc_def)
  have "set (map (\<lambda>i. rs ! i) ?p) = (\<lambda>i. rs ! i) ` {..<length rs}"
    using s by simp
  also have "\<dots> = set rs" by (auto simp: set_conv_nth)
  finally show "set (sort_values_desc argsort key rs) = set rs"
    by (simp add: sort_values_desc_def)
  have "\<And>i. i \<in> set ?p \<Longrightarrow> map key rs ! i = key (rs ! i)"
    using s by simp
  then have "map (\<lambda>i. map key rs ! i) ?p = map key (map (\<lambda>i. rs ! i) ?p)"
    by simp
  with o show "sorted_wrt (\<lambda>a b. key b \<le> key a) (sort_values_desc argsort key rs)"
    by (simp add: sort_values_desc_def sorted_wrt_map del: map_map)
qed

lemma head_take: "0 \<le> n \<Longrightarrow> head n xs = take (nat n) xs"
  by (simp add: head_def)

lemma head_sorted_wrt: "sorted_wrt R xs \<Longrightarrow> sorted_wrt R (head n xs)"
  by (simp add: head_def sorted_wrt_take)



lemma joined_rows_mem:
  "(s', c) \<in> set (case ps of [] \<Rightarrow> [(s, None)]
                    | a # list \<Rightarrow> map (\<lambda>p. (s, product_category_name p)) (a # list)) \<longleftrightarrow>
   s' = s \<and> ((ps = [] \<and> c = None) \<or> (\<exists>p\<in>set ps. c = product_category_name p))"
  by (cases ps) auto

lemma merge_left_mem:
  "(s, c) \<in> set (merge_left sales products) \<longleftrightarrow>
   s \<in> set sales \<and>
   ((c = None \<and> (\<forall>p\<in>set products. prod_id p \<noteq> product_id s)) \<or>
    (\<exists>p\<in>set products. prod_id p = product_id s \<and> c = product_category_name p))"
proof -
  have "(s, c) \<in> set (merge_left sales products) \<longleftrightarrow>
      (\<exists>x\<in>set sales. (s, c) \<in> set (case filter (\<lambda>p. prod_id p = product_id x) products of
          [] \<Rightarrow> [(x, None)]
        | ps \<Rightarrow> map (\<lambda>p. (x, product_category_name p)) ps))"
    by (simp add: merge_left_def)
  also have "\<dots> \<longleftrightarrow> (\<exists>x\<in>set sales. s = x \<and>
      ((filter (\<lambda>p. prod_id p = product_id x) products = [] \<and> c = None) \<or>
       (\<exists>p\<in>set (filter (\<lambda>p. prod_id p = product_id x) products). c = product_category_name p)))"
    unfolding joined_rows_mem ..
  also have "\<dots> \<longleftrightarrow> s \<in> set sales \<and>
   ((c = None \<and> (\<forall>p\<in>set products. prod_id p \<noteq> product_id s)) \<or>
    (\<exists>p\<in>set products. prod_id p = product_id s \<and> c = product_category_name p))"
    by (auto simp: filter_empty_conv)
  finally show ?thesis .
qed

lemma merge_left_fst: "fst ` set (merge_left sales products) = set sales"
proof (rule set_eqI)
  fix s
  have "s \<in> fst ` set (merge_left sales products) \<longleftrightarrow> (\<exists>c. (s, c) \<in> set (merge_left sales products))"
    by force
  also have "\<dots> \<longleftrightarrow> s \<in> set sales"
    unfolding merge_left_mem by blast
  finally show "s \<in> fst ` set (merge_left sales products) \<longleftrightarrow> s \<in> set sales" .
qed

lemma category_names_list:
  fixes sp :: "(sale \<times> string option) list"
  shows "set (concat (map (\<lambda>r. case snd r of None \<Rightarrow> [] | Some c \<Rightarrow> [c]) sp)) =
   {c. \<exists>s. (s, Some c) \<in> set sp}"
proof (rule set_eqI)
  fix c :: string
  have "c \<in> set (case snd r of None \<Rightarrow> [] | Some c \<Rightarrow> [c]) \<longleftrightarrow> snd r = Some c" for r :: "sale \<times> string option"
    by (cases "snd r") auto
  then have "c \<in> set (concat (map (\<lambda>r. case snd r of None \<Rightarrow> [] | Some c \<Rightarrow> [c]) sp)) \<longleftrightarrow>
      (\<exists>r\<in>set sp. snd r = Some c)"
    by simp
  also have "\<dots> \<longleftrightarrow> (\<exists>s. (s, Some c) \<in> set sp)"
    by (metis prod.collapse snd_conv)
  finally show "c \<in> set (concat (map (\<lambda>r. case snd r of None \<Rightarrow> [] | Some c \<Rightarrow> [c]) sp)) \<longleftrightarrow>
      c \<in> {c. \<exists>s. (s, Some c) \<in> set sp}" by simp
qed

lemma category_names_map:
  "map name (category_metrics sp) =
   group_keys (concat (map (\<lambda>r. case snd r of None \<Rightarrow> [] | Some c \<Rightarrow> [c]) sp))"
  by (simp add: category_metrics_def Let_def o_def)

lemma category_names:
  "name ` set (category_metrics sp) = {c. \<exists>s. (s, Some c) \<in> set sp}"
proof -
  have "name ` set (category_metrics sp) = set (map name (category_metrics sp))" by simp
  then show ?thesis
    unfolding category_names_map group_keys_set category_names_list .
qed

lemma category_count:
  "length (category_metrics sp) = card {c. \<exists>s. (s, Some c) \<in> set sp}"
proof -
  have "length (category_metrics sp) = length (map name (category_metrics sp))" by simp
  then show ?thesis
    unfolding category_names_map group_keys_length category_names_list .
qed

lemma product_names_map:
  "map name (product_metrics sp) = group_keys (map (product_id \<circ> fst) sp)"
  by (simp add: product_metrics_def Let_def o_def)

lemma product_names:
  "name ` set (product_metrics sp) = product_id ` fst ` set sp"
proof -
  have "name ` set (product_metrics sp) = set (map name (product_metrics sp))" by simp
  then show ?thesis
    unfolding product_names_map group_keys_set by (simp add: image_image)
qed

lemma product_count:
  "length (product_metrics sp) = card (product_id ` fst ` set sp)"
proof -
  have "length (product_metrics sp) = length (map name (product_metrics sp))" by simp
  then show ?thesis
    unfolding product_names_map group_keys_length by (simp add: image_image)
qed


lemma reversed_argsort_descending: "descending_argsort reversed_argsort"
  unfolding descending_argsort_def
proof (intro allI conjI)
  fix vs :: "rat list"
  let ?zs = "zip vs [0..<length vs]"
  let ?S = "sort_key fst ?zs"
  show "distinct (reversed_argsort vs)"
    by (simp add: reversed_argsort_def distinct_map_sort_key)
  have "set (reversed_argsort vs) = snd ` set ?zs"
    by (simp add: reversed_argsort_def)
  also have "\<dots> = set (map snd ?zs)" by (simp only: set_map)
  also have "\<dots> = {..<length vs}" by (simp add: lessThan_atLeast0)
  finally show "set (reversed_argsort vs) = {..<length vs}" .
  have "\<And>p. p \<in> set ?S \<Longrightarrow> vs ! snd p = fst p"
    using zip_upt_nth[of _ vs] by simp
  then have eq: "map (\<lambda>p. vs ! snd p) ?S = map fst ?S"
    by (intro map_cong refl)
  have "sorted (map fst ?S)" by (rule sorted_sort_key)
  then have "sorted_wrt (\<lambda>a b. b \<le> a) (rev (map fst ?S))"
    by (simp add: sorted_wrt_rev)
  then show "sorted_wrt (\<lambda>a b. b \<le> a) (map (\<lambda>i. vs ! i) (reversed_argsort vs))"
    unfolding reversed_argsort_def rev_map[symmetric] map_map o_def eq .
qed

lemma head_length: "0 \<le> n \<Longrightarrow> length (head n xs) = min (nat n) (length xs)"
  by (simp add: head_def)

lemma category_revenue:
  "\<forall>r\<in>set (category_metrics sp).
     total_revenue r = round2 (\<Sum>x\<leftarrow>filter (\<lambda>x. snd x = Some (name r)) sp. price (fst x)) \<and>
     items_sold r = int (length (filter (\<lambda>x. snd x = Some (name r)) sp))"
  by (auto simp: category_metrics_def Let_def o_def)

lemma product_revenue:
  "\<forall>r\<in>set (product_metrics sp).
     total_revenue r = round2 (\<Sum>x\<leftarrow>filter (\<lambda>x. product_id (fst x) = name r) sp. price (fst x)) \<and>
     items_sold r = int (length (filter (\<lambda>x. product_id (fst x) = name r) sp))"
  by (auto simp: product_metrics_def Let_def o_def)

lemma sorted_table:
  assumes "descending_argsort argsort"
  shows "\<exists>full. head n (sort_values_desc argsort total_revenue rs) = head n full \<and>
           length full = length rs \<and> set full = set rs \<and>
           sorted_wrt (\<lambda>a b. total_revenue b \<le> total_revenue a) full"
  using sort_values_desc_perm[OF assms, of total_revenue rs] by blast

section \<open>Claims about business\_metrics.py\<close>

text \<open>
  C1. For a sales table with at least one row, \<open>calculate_revenue_metrics\<close> without a
  comparison table returns four entries: the total revenue is the sum of the prices,
  the average order value is the mean over the distinct orders of each order's price
  sum, the number of orders is the number of distinct \<^verbatim>\<open>order_id\<close> values, and the number
  of items is the number of rows.
\<close>

theorem revenue_metrics_values:
  "t \<noteq> [] \<Longrightarrow>
   \<exists>m. calculate_revenue_metrics t None current_period comparison_period = Inr m \<and>
     map fst m = [current_period @ ''_total_revenue'', current_period @ ''_avg_order_value'',
                  current_period @ ''_total_orders'', current_period @ ''_total_items''] \<and>
     map_of m (current_period @ ''_total_revenue'') = Some (NpFloat (Fin (\<Sum>r\<leftarrow>t. price r))) \<and>
     map_of m (current_period @ ''_avg_order_value'') =
       Some (NpFloat (Fin ((\<Sum>k\<in>order_id ` set t. (\<Sum>r\<leftarrow>filter (\<lambda>r. order_id r = k) t. price r)) /
          of_nat (card (order_id ` set t))))) \<and>
     map_of m (current_period @ ''_total_orders'') = Some (PyInt (int (card (order_id ` set t)))) \<and>
     map_of m (current_period @ ''_total_items'') = Some (PyInt (int (length t)))"
  by (simp add: calculate_revenue_metrics_def metrics_literal metrics_literal_keys
      mean_order_totals nunique_card)

text \<open>
  The theorem at two orders of 10 + 20 and of 30: the average order value is 30, where
  the mean price of a line is 20.
\<close>

theorem revenue_metrics_values_witness:
  "\<exists>m. calculate_revenue_metrics sales_example None ''Current Period'' ''Previous Period'' = Inr m \<and>
     map_of m ''Current Period_total_revenue'' = Some (NpFloat (Fin 60)) \<and>
     map_of m ''Current Period_avg_order_value'' = Some (NpFloat (Fin 30)) \<and>
     map_of m ''Current Period_total_orders'' = Some (PyInt 2) \<and>
     map_of m ''Current Period_total_items'' = Some (PyInt 3) \<and>
     mean (map price sales_example) = Fin 20"
proof -
  have ne: "sales_example \<noteq> []" by (simp add: sales_example_def)
  have 1: "(\<Sum>r\<leftarrow>sales_example. price r) = 60" by code_simp
  have 2: "(\<Sum>k\<in>order_id ` set sales_example.
             (\<Sum>r\<leftarrow>filter (\<lambda>r. order_id r = k) sales_example. price r)) /
          of_nat (card (order_id ` set sales_example)) = 30" by code_simp
  have 3: "int (card (order_id ` set sales_example)) = 2" by code_simp
  have 4: "int (length sales_example) = 3" by code_simp
  have 5: "mean (map price sales_example) = Fin 20" by code_simp
  from revenue_metrics_values[OF ne, of "''Current Period''" "''Previous Period''"]
  show ?thesis unfolding 1 2 3 4 using 5 by auto
qed

text \<open>
  What \<open>calculate_revenue_metrics\<close> computes with a comparison table. The growth of
  the order count is a division of Python integers: an empty comparison table (no
  orders) raises \<^verbatim>\<open>ZeroDivisionError\<close>. The growths of revenue and of average order
  value are numpy divisions, which raise nothing: with a comparison table that has rows,
  the call returns, and each rate is \<open>(current - previous) / previous * 100\<close> when the
  previous value is not 0, and an infinity or \<^verbatim>\<open>NaN\<close> when it is.
\<close>

lemma growth_rates:
  "(previous = [] \<longrightarrow>
      calculate_revenue_metrics current (Some previous) current_period comparison_period =
        Inl ZeroDivisionError) \<and>
   (previous \<noteq> [] \<longrightarrow>
      (\<exists>m. calculate_revenue_metrics current (Some previous) current_period comparison_period = Inr m \<and>
         map_of m ''revenue_growth_rate'' =
           Some (NpFloat (growth_rate (Fin (\<Sum>r\<leftarrow>current. price r)) (Fin (\<Sum>r\<leftarrow>previous. price r)))) \<and>
         map_of m ''aov_growth_rate'' =
           Some (NpFloat (growth_rate (mean (order_totals current)) (mean (order_totals previous)))) \<and>
         map_of m ''order_growth_rate'' =
           Some (PyFloat (Fin ((of_int (nunique (map order_id current)) -
                                of_int (nunique (map order_id previous))) /
                               of_int (nunique (map order_id previous)) * 100))))) \<and>
   (\<forall>a b. b \<noteq> 0 \<longrightarrow> growth_rate (Fin a) (Fin b) = Fin ((a - b) / b * 100)) \<and>
   (\<forall>a. growth_rate (Fin a) (Fin 0) = (if a = 0 then NaN else if 0 < a then PInf else NInf))"
proof (intro conjI impI allI)
  assume "previous = []"
  then show "calculate_revenue_metrics current (Some previous) current_period comparison_period =
        Inl ZeroDivisionError"
    by (simp add: calculate_revenue_metrics_def Let_def dict_get_def metrics_literal
        and_then_def py_div_def nunique_def)
next
  assume ne: "previous \<noteq> []"
  then have nz: "nunique (map order_id previous) \<noteq> 0" by (simp add: nunique_zero)
  show "\<exists>m. calculate_revenue_metrics current (Some previous) current_period comparison_period = Inr m \<and>
         map_of m ''revenue_growth_rate'' =
           Some (NpFloat (growth_rate (Fin (\<Sum>r\<leftarrow>current. price r)) (Fin (\<Sum>r\<leftarrow>previous. price r)))) \<and>
         map_of m ''aov_growth_rate'' =
           Some (NpFloat (growth_rate (mean (order_totals current)) (mean (order_totals previous)))) \<and>
         map_of m ''order_growth_rate'' =
           Some (PyFloat (Fin ((of_int (nunique (map order_id current)) -
                                of_int (nunique (map order_id previous))) /
                               of_int (nunique (map order_id previous)) * 100)))"
    using nz
    by (simp add: calculate_revenue_metrics_def Let_def dict_get_def metrics_literal
        and_then_def py_div_def map_of_dict_update growth_rate_def)
next
  fix a b :: rat assume "b \<noteq> 0"
  then show "growth_rate (Fin a) (Fin b) = Fin ((a - b) / b * 100)"
    by (simp add: growth_rate_def)
next
  fix a :: rat
  show "growth_rate (Fin a) (Fin 0) = (if a = 0 then NaN else if 0 < a then PInf else NInf)"
    by (simp add: growth_rate_def)
qed

text \<open>
  The lemma at an empty comparison table, and at revenues 60 against 15, average order
  values 30 against 15 and 2 orders against 1.
\<close>

lemma growth_rates_witness:
  "calculate_revenue_metrics sales_example (Some []) ''Current Period'' ''Previous Period'' =
     Inl ZeroDivisionError \<and>
   (\<exists>m. calculate_revenue_metrics sales_example (Some previous_example)
          ''Current Period'' ''Previous Period'' = Inr m \<and>
      map_of m ''revenue_growth_rate'' = Some (NpFloat (Fin 300)) \<and>
      map_of m ''aov_growth_rate'' = Some (NpFloat (Fin 100)) \<and>
      map_of m ''order_growth_rate'' = Some (PyFloat (Fin 100))) \<and>
   growth_rate (Fin 60) (Fin 15) = Fin 300 \<and>
   growth_rate (Fin 60) (Fin 0) = PInf"
proof -
  have ne: "previous_example \<noteq> []" by (simp add: previous_example_def)
  have nz: "(15::rat) \<noteq> 0" by simp
  have 1: "growth_rate (Fin (\<Sum>r\<leftarrow>sales_example. price r)) (Fin (\<Sum>r\<leftarrow>previous_example. price r)) = Fin 300"
    by code_simp
  have 2: "growth_rate (mean (order_totals sales_example)) (mean (order_totals previous_example)) = Fin 100"
    by code_simp
  have 3: "(of_int (nunique (map order_id sales_example)) -
            of_int (nunique (map order_id previous_example))) /
           of_int (nunique (map order_id previous_example)) * 100 = (100::rat)"
    by code_simp
  note g = growth_rates[of "[]" sales_example "''Current Period''" "''Previous Period''"]
  note h = growth_rates[of previous_example sales_example "''Current Period''" "''Previous Period''"]
  have a: "calculate_revenue_metrics sales_example (Some []) ''Current Period'' ''Previous Period'' =
     Inl ZeroDivisionError"
    using g[THEN conjunct1] by simp
  have b: "\<exists>m. calculate_revenue_metrics sales_example (Some previous_example)
          ''Current Period'' ''Previous Period'' = Inr m \<and>
      map_of m ''revenue_growth_rate'' = Some (NpFloat (Fin 300)) \<and>
      map_of m ''aov_growth_rate'' = Some (NpFloat (Fin 100)) \<and>
      map_of m ''order_growth_rate'' = Some (PyFloat (Fin 100))"
    using h[THEN conjunct2, THEN conjunct1, rule_format, OF ne] unfolding 1 2 3 .
  have c: "growth_rate (Fin 60) (Fin 15) = Fin 300"
    using h[THEN conjunct2, THEN conjunct2, THEN conjunct1, rule_format, OF nz, of 60] by simp
  have d: "growth_rate (Fin 60) (Fin 0) = PInf"
    using h[THEN conjunct2, THEN conjunct2, THEN conjunct2, rule_format, of 60] by simp
  from a b c d show ?thesis by blast
qed

text \<open>
  C2. A growth rate whose denominator is 0 is to be surfaced as an explicit
  division-by-zero signal, never returned as an infinity or \<^verbatim>\<open>NaN\<close>. The code does so
  for the order count only: with an empty comparison table the call raises
  \<^verbatim>\<open>ZeroDivisionError\<close>. It does not for revenue and average order value: a comparison
  period with one order whose only item has price 0 has total revenue 0 and average
  order value 0, and the call returns both growth rates as infinity, with no error.
  The dashboard's \<^verbatim>\<open>get_trend_indicator\<close> computes the same formula on the same values
  behind the guard \<^verbatim>\<open>previous == 0\<close>, which this function lacks.
\<close>

theorem zero_revenue_growth_is_silent_infinity:
  "calculate_revenue_metrics sales_example (Some []) ''Current Period'' ''Previous Period'' =
     Inl ZeroDivisionError \<and>
   (\<Sum>r\<leftarrow>free_example. price r) = 0 \<and>
   calculate_revenue_metrics sales_example (Some free_example) ''Current Period'' ''Previous Period'' =
     Inr [(''Current Period_total_revenue'', NpFloat (Fin 60)),
          (''Current Period_avg_order_value'', NpFloat (Fin 30)),
          (''Current Period_total_orders'', PyInt 2),
          (''Current Period_total_items'', PyInt 3),
          (''Previous Period_total_revenue'', NpFloat (Fin 0)),
          (''Previous Period_avg_order_value'', NpFloat (Fin 0)),
          (''Previous Period_total_orders'', PyInt 1),
          (''Previous Period_total_items'', PyInt 1),
          (''revenue_growth_rate'', NpFloat PInf),
          (''aov_growth_rate'', NpFloat PInf),
          (''order_growth_rate'', PyFloat (Fin 100))]"
  by code_simp

text \<open>
  C5. \<open>calculate_monthly_trends\<close> returns one row for each month that occurs in the
  input after the year filter, in ascending order, and none for a month that does not
  occur. A row holds the price sum of its month, the number of distinct orders of the
  month, and as average order value the mean over these orders of each order's price
  sum in the month. The three growth columns are undefined (\<^verbatim>\<open>NaN\<close>) in the first row,
  and in a later row the ratio to the row before minus one, times 100.
\<close>

theorem monthly_trends_rows:
  "let data = filtered_input data0 year;
       T = calculate_monthly_trends data0 year
   in map month T = sorted_list_of_set (order_purchase_timestamp_month ` set data) \<and>
      length T = card (order_purchase_timestamp_month ` set data) \<and>
      (\<forall>t\<in>set T.
         revenue t =
           Fin (\<Sum>r\<leftarrow>filter (\<lambda>r. order_purchase_timestamp_month r = month t) data. price r) \<and>
         orders t =
           int (card (order_id ` {r \<in> set data. order_purchase_timestamp_month r = month t})) \<and>
         avg_order_value t =
           Fin ((\<Sum>k\<in>order_id ` {r \<in> set data. order_purchase_timestamp_month r = month t}.
                  (\<Sum>r\<leftarrow>filter (\<lambda>r. order_purchase_timestamp_month r = month t \<and> order_id r = k) data.
                     price r)) /
                of_nat (card (order_id ` {r \<in> set data. order_purchase_timestamp_month r = month t})))) \<and>
      (T \<noteq> [] \<longrightarrow>
         revenue_growth (hd T) = NaN \<and> order_growth (hd T) = NaN \<and> aov_growth (hd T) = NaN) \<and>
      (\<forall>i. 0 < i \<and> i < length T \<longrightarrow>
         revenue_growth (T ! i) =
           fmul (fsub (fdiv (revenue (T ! i)) (revenue (T ! (i - 1)))) (Fin 1)) (Fin 100) \<and>
         order_growth (T ! i) =
           fmul (fsub (fdiv (Fin (of_int (orders (T ! i)))) (Fin (of_int (orders (T ! (i - 1))))))
                  (Fin 1)) (Fin 100) \<and>
         aov_growth (T ! i) =
           fmul (fsub (fdiv (avg_order_value (T ! i)) (avg_order_value (T ! (i - 1)))) (Fin 1))
             (Fin 100))"
proof -
  define data where "data = filtered_input data0 year"
  define months where "months = group_keys (map order_purchase_timestamp_month data)"
  define T where "T = calculate_monthly_trends data0 year"
  have len: "length T = length months"
    unfolding T_def months_def data_def by (rule trends_length)
  note nth = trends_nth[OF data_def months_def, folded T_def]
  have months_set: "set months = order_purchase_timestamp_month ` set data"
    by (simp add: months_def group_keys_set)
  have "map month T = months"
    by (rule nth_equalityI) (simp_all add: len nth)
  then have A: "map month T = sorted_list_of_set (order_purchase_timestamp_month ` set data)"
    by (simp add: months_def group_keys_sorted_list)
  have B: "length T = card (order_purchase_timestamp_month ` set data)"
    using len by (simp add: months_def group_keys_length)
  have C: "\<forall>t\<in>set T.
         revenue t =
           Fin (\<Sum>r\<leftarrow>filter (\<lambda>r. order_purchase_timestamp_month r = month t) data. price r) \<and>
         orders t =
           int (card (order_id ` {r \<in> set data. order_purchase_timestamp_month r = month t})) \<and>
         avg_order_value t =
           Fin ((\<Sum>k\<in>order_id ` {r \<in> set data. order_purchase_timestamp_month r = month t}.
                  (\<Sum>r\<leftarrow>filter (\<lambda>r. order_purchase_timestamp_month r = month t \<and> order_id r = k) data.
                     price r)) /
                of_nat (card (order_id ` {r \<in> set data. order_purchase_timestamp_month r = month t})))"
  proof
    fix t assume "t \<in> set T"
    then obtain i where i: "i < length months" and t: "t = T ! i"
      using len by (auto simp: in_set_conv_nth)
    have mem: "months ! i \<in> order_purchase_timestamp_month ` set data"
      using i months_set nth_mem by blast
    have set_eq: "set (filter (\<lambda>r. order_purchase_timestamp_month r = months ! i) data) =
        {r \<in> set data. order_purchase_timestamp_month r = months ! i}" by auto
    have o: "month_orders data (months ! i) =
        int (card (order_id ` {r \<in> set data. order_purchase_timestamp_month r = months ! i}))"
      by (simp add: month_orders_def nunique_card set_eq)
    show "revenue t =
           Fin (\<Sum>r\<leftarrow>filter (\<lambda>r. order_purchase_timestamp_month r = month t) data. price r) \<and>
         orders t =
           int (card (order_id ` {r \<in> set data. order_purchase_timestamp_month r = month t})) \<and>
         avg_order_value t =
           Fin ((\<Sum>k\<in>order_id ` {r \<in> set data. order_purchase_timestamp_month r = month t}.
                  (\<Sum>r\<leftarrow>filter (\<lambda>r. order_purchase_timestamp_month r = month t \<and> order_id r = k) data.
                     price r)) /
                of_nat (card (order_id ` {r \<in> set data. order_purchase_timestamp_month r = month t})))"
      unfolding t nth[OF i] using o month_aov_value[OF mem]
      by (simp add: month_revenue_def)
  qed
  have D: "T \<noteq> [] \<longrightarrow>
         revenue_growth (hd T) = NaN \<and> order_growth (hd T) = NaN \<and> aov_growth (hd T) = NaN"
  proof
    assume T: "T \<noteq> []"
    then have "0 < length T" by simp
    then have 0: "0 < length months" using len by simp
    have h: "hd T = T ! 0" using T by (simp add: hd_conv_nth)
    have ne: "months \<noteq> []" using 0 by auto
    show "revenue_growth (hd T) = NaN \<and> order_growth (hd T) = NaN \<and> aov_growth (hd T) = NaN"
      unfolding h nth[OF 0] using ne by (simp add: pct_change_first)
  qed
  have E: "\<forall>i. 0 < i \<and> i < length T \<longrightarrow>
         revenue_growth (T ! i) =
           fmul (fsub (fdiv (revenue (T ! i)) (revenue (T ! (i - 1)))) (Fin 1)) (Fin 100) \<and>
         order_growth (T ! i) =
           fmul (fsub (fdiv (Fin (of_int (orders (T ! i)))) (Fin (of_int (orders (T ! (i - 1))))))
                  (Fin 1)) (Fin 100) \<and>
         aov_growth (T ! i) =
           fmul (fsub (fdiv (avg_order_value (T ! i)) (avg_order_value (T ! (i - 1)))) (Fin 1))
             (Fin 100)"
  proof (intro allI impI)
    fix i assume "0 < i \<and> i < length T"
    then have i0: "0 < i" and i: "i < length months" and p: "i - 1 < length months"
      using len by auto
    show "revenue_growth (T ! i) =
           fmul (fsub (fdiv (revenue (T ! i)) (revenue (T ! (i - 1)))) (Fin 1)) (Fin 100) \<and>
         order_growth (T ! i) =
           fmul (fsub (fdiv (Fin (of_int (orders (T ! i)))) (Fin (of_int (orders (T ! (i - 1))))))
                  (Fin 1)) (Fin 100) \<and>
         aov_growth (T ! i) =
           fmul (fsub (fdiv (avg_order_value (T ! i)) (avg_order_value (T ! (i - 1)))) (Fin 1))
             (Fin 100)"
      unfolding nth[OF i] nth[OF p] using i0 i p by (simp add: pct_change_later)
  qed
  from A B C D E show ?thesis
    unfolding Let_def data_def[symmetric] T_def[symmetric] by blast
qed


text \<open>
  The theorem at the year 2023 of the example: rows for March and August only, March
  with revenue 90 from 2 orders, and no growth in the first row.
\<close>

theorem monthly_trends_rows_witness:
  "map month (calculate_monthly_trends trend_example (Some 2023)) = [3, 8] \<and>
   length (calculate_monthly_trends trend_example (Some 2023)) = 2 \<and>
   revenue (hd (calculate_monthly_trends trend_example (Some 2023))) = Fin 90 \<and>
   orders (hd (calculate_monthly_trends trend_example (Some 2023))) = 2 \<and>
   avg_order_value (hd (calculate_monthly_trends trend_example (Some 2023))) = Fin 45 \<and>
   revenue_growth (hd (calculate_monthly_trends trend_example (Some 2023))) = NaN \<and>
   order_growth (hd (calculate_monthly_trends trend_example (Some 2023))) = NaN \<and>
   aov_growth (hd (calculate_monthly_trends trend_example (Some 2023))) = NaN \<and>
   revenue_growth (calculate_monthly_trends trend_example (Some 2023) ! 1) = Fin (- (800 / 9))"
proof -
  let ?T = "calculate_monthly_trends trend_example (Some 2023)"
  let ?data = "filtered_input trend_example (Some 2023)"
  note th = monthly_trends_rows[of trend_example "Some 2023", unfolded Let_def]
  have s: "sorted_list_of_set (order_purchase_timestamp_month ` set ?data) = [3, 8]"
    by code_simp
  have c: "card (order_purchase_timestamp_month ` set ?data) = 2" by code_simp
  have A: "map month ?T = [3, 8]" using th s by simp
  have B: "length ?T = 2" using th c by simp
  then have ne: "?T \<noteq> []" by auto
  then have mem: "hd ?T \<in> set ?T" by simp
  have m: "month (hd ?T) = 3" using A ne by (simp add: hd_map[symmetric])
  have r: "(\<Sum>r\<leftarrow>filter (\<lambda>r. order_purchase_timestamp_month r = 3) ?data. price r) = 90"
    by code_simp
  have o: "int (card (order_id ` {r \<in> set ?data. order_purchase_timestamp_month r = 3})) = 2"
  proof -
    have "{r \<in> set ?data. order_purchase_timestamp_month r = 3} =
        set (filter (\<lambda>r. order_purchase_timestamp_month r = 3) ?data)" by auto
    moreover have "int (card (order_id ` set (filter (\<lambda>r. order_purchase_timestamp_month r = 3) ?data))) = 2"
      by code_simp
    ultimately show ?thesis by simp
  qed
  have v: "(\<Sum>k\<in>order_id ` {r \<in> set ?data. order_purchase_timestamp_month r = 3}.
                  (\<Sum>r\<leftarrow>filter (\<lambda>r. order_purchase_timestamp_month r = 3 \<and> order_id r = k) ?data.
                     price r)) = 90"
  proof -
    have "{r \<in> set ?data. order_purchase_timestamp_month r = 3} =
        set (filter (\<lambda>r. order_purchase_timestamp_month r = 3) ?data)" by auto
    moreover have "(\<Sum>k\<in>order_id ` set (filter (\<lambda>r. order_purchase_timestamp_month r = 3) ?data).
                  (\<Sum>r\<leftarrow>filter (\<lambda>r. order_purchase_timestamp_month r = 3 \<and> order_id r = k) ?data.
                     price r)) = 90"
      by code_simp
    ultimately show ?thesis by simp
  qed
  from th mem have "revenue (hd ?T) =
           Fin (\<Sum>r\<leftarrow>filter (\<lambda>r. order_purchase_timestamp_month r = month (hd ?T)) ?data. price r) \<and>
         orders (hd ?T) =
           int (card (order_id ` {r \<in> set ?data. order_purchase_timestamp_month r = month (hd ?T)})) \<and>
         avg_order_value (hd ?T) =
           Fin ((\<Sum>k\<in>order_id ` {r \<in> set ?data. order_purchase_timestamp_month r = month (hd ?T)}.
                  (\<Sum>r\<leftarrow>filter (\<lambda>r. order_purchase_timestamp_month r = month (hd ?T) \<and> order_id r = k) ?data.
                     price r)) /
                of_nat (card (order_id ` {r \<in> set ?data. order_purchase_timestamp_month r = month (hd ?T)})))"
    by blast
  then have C: "revenue (hd ?T) = Fin 90 \<and> orders (hd ?T) = 2 \<and> avg_order_value (hd ?T) = Fin 45"
    unfolding m r v using o by simp
  have D: "revenue_growth (hd ?T) = NaN \<and> order_growth (hd ?T) = NaN \<and> aov_growth (hd ?T) = NaN"
    using th ne by blast
  have i: "0 < (1::nat) \<and> 1 < length ?T" using B by simp
  have E0: "revenue_growth (?T ! 1) =
           fmul (fsub (fdiv (revenue (?T ! 1)) (revenue (?T ! (1 - 1)))) (Fin 1)) (Fin 100)"
    using th i by blast
  have mem1: "?T ! 1 \<in> set ?T" using B by simp
  have m1: "month (?T ! 1) = 8" using A B by (metis nth_map nth_Cons_0 nth_Cons_Suc One_nat_def i)
  have r1: "(\<Sum>r\<leftarrow>filter (\<lambda>r. order_purchase_timestamp_month r = 8) ?data. price r) = 10"
    by code_simp
  from th mem1 have "revenue (?T ! 1) =
           Fin (\<Sum>r\<leftarrow>filter (\<lambda>r. order_purchase_timestamp_month r = month (?T ! 1)) ?data. price r)"
    by blast
  then have R1: "revenue (?T ! 1) = Fin 10" unfolding m1 r1 .
  have R0: "revenue (?T ! (1 - 1)) = Fin 90" using C ne by (simp add: hd_conv_nth)
  have E: "revenue_growth (?T ! 1) = Fin (- (800 / 9))"
    unfolding E0 R1 R0 by simp
  from A B C D E show ?thesis by blast
qed

text \<open>
  C6, as amended. The left join keeps every sales row, a row without a matching product
  with a missing category. The per-product table has a row for every product sold, such
  products included. The per-category table has a row for every category that is not
  missing: the rows with a missing category are left out of it. A row's total revenue is
  the rounded price sum of its group. With an argsort that orders by descending value,
  each returned table is the first \<open>top_n\<close> rows of a descending arrangement of its
  aggregate rows, so each row's total revenue is at least the next row's, and for
  \<open>top_n\<close> not negative it has \<open>top_n\<close> rows or all of them: 3 rows for \<open>top_n = 3\<close> on 5
  categories. The order among equal revenues is the argsort's; when the argsort is
  stable, the table is the stable descending sort of the aggregate rows, which are in
  ascending order of their key.
\<close>

theorem product_performance_tables:
  "(descending_argsort argsort \<longrightarrow>
    (let sp = merge_left sales products;
         cats = category_performance (analyze_product_performance argsort sales products top_n);
         prods = product_performance (analyze_product_performance argsort sales products top_n)
     in (\<forall>s\<in>set sales. (\<forall>p\<in>set products. prod_id p \<noteq> product_id s) \<longrightarrow> (s, None) \<in> set sp) \<and>
        fst ` set sp = set sales \<and>
        name ` set (category_metrics sp) = {c. \<exists>s. (s, Some c) \<in> set sp} \<and>
        name ` set (product_metrics sp) = product_id ` set sales \<and>
        (\<forall>r\<in>set (category_metrics sp).
           total_revenue r = round2 (\<Sum>x\<leftarrow>filter (\<lambda>x. snd x = Some (name r)) sp. price (fst x)) \<and>
           items_sold r = int (length (filter (\<lambda>x. snd x = Some (name r)) sp))) \<and>
        (\<forall>r\<in>set (product_metrics sp).
           total_revenue r = round2 (\<Sum>x\<leftarrow>filter (\<lambda>x. product_id (fst x) = name r) sp. price (fst x)) \<and>
           items_sold r = int (length (filter (\<lambda>x. product_id (fst x) = name r) sp))) \<and>
        (\<exists>full. cats = head top_n full \<and> length full = length (category_metrics sp) \<and>
           set full = set (category_metrics sp) \<and>
           sorted_wrt (\<lambda>a b. total_revenue b \<le> total_revenue a) full) \<and>
        (\<exists>full. prods = head top_n full \<and> length full = length (product_metrics sp) \<and>
           set full = set (product_metrics sp) \<and>
           sorted_wrt (\<lambda>a b. total_revenue b \<le> total_revenue a) full) \<and>
        sorted_wrt (\<lambda>a b. total_revenue b \<le> total_revenue a) cats \<and>
        sorted_wrt (\<lambda>a b. total_revenue b \<le> total_revenue a) prods \<and>
        (0 \<le> top_n \<longrightarrow>
           length cats = min (nat top_n) (card {c. \<exists>s. (s, Some c) \<in> set sp}) \<and>
           length prods = min (nat top_n) (card (product_id ` set sales))))) \<and>
   category_performance (analyze_product_performance stable_argsort sales products top_n) =
     head top_n (sort_key (\<lambda>r. - total_revenue r) (category_metrics (merge_left sales products))) \<and>
   product_performance (analyze_product_performance stable_argsort sales products top_n) =
     head top_n (sort_key (\<lambda>r. - total_revenue r) (product_metrics (merge_left sales products)))"
proof (intro conjI impI)
  assume ok: "descending_argsort argsort"
  define sp where "sp = merge_left sales products"
  define cats where
    "cats = category_performance (analyze_product_performance argsort sales products top_n)"
  define prods where
    "prods = product_performance (analyze_product_performance argsort sales products top_n)"
  have cats: "cats = head top_n (sort_values_desc argsort total_revenue (category_metrics sp))"
    by (simp add: cats_def sp_def analyze_product_performance_def Let_def)
  have prods: "prods = head top_n (sort_values_desc argsort total_revenue (product_metrics sp))"
    by (simp add: prods_def sp_def analyze_product_performance_def Let_def)
  have 1: "\<forall>s\<in>set sales. (\<forall>p\<in>set products. prod_id p \<noteq> product_id s) \<longrightarrow> (s, None) \<in> set sp"
    unfolding sp_def merge_left_mem by blast
  have 2: "fst ` set sp = set sales" unfolding sp_def by (rule merge_left_fst)
  have 3: "name ` set (category_metrics sp) = {c. \<exists>s. (s, Some c) \<in> set sp}"
    by (rule category_names)
  have 4: "name ` set (product_metrics sp) = product_id ` set sales"
    unfolding product_names 2 ..
  note 5 = category_revenue[of sp]
  note 6 = product_revenue[of sp]
  have 7: "\<exists>full. cats = head top_n full \<and> length full = length (category_metrics sp) \<and>
           set full = set (category_metrics sp) \<and>
           sorted_wrt (\<lambda>a b. total_revenue b \<le> total_revenue a) full"
    unfolding cats using ok by (rule sorted_table)
  have 8: "\<exists>full. prods = head top_n full \<and> length full = length (product_metrics sp) \<and>
           set full = set (product_metrics sp) \<and>
           sorted_wrt (\<lambda>a b. total_revenue b \<le> total_revenue a) full"
    unfolding prods using ok by (rule sorted_table)
  have 9: "sorted_wrt (\<lambda>a b. total_revenue b \<le> total_revenue a) cats"
    unfolding cats by (intro head_sorted_wrt sort_values_desc_perm(3)[OF ok])
  have 10: "sorted_wrt (\<lambda>a b. total_revenue b \<le> total_revenue a) prods"
    unfolding prods by (intro head_sorted_wrt sort_values_desc_perm(3)[OF ok])
  have 11: "0 \<le> top_n \<longrightarrow>
           length cats = min (nat top_n) (card {c. \<exists>s. (s, Some c) \<in> set sp}) \<and>
           length prods = min (nat top_n) (card (product_id ` set sales))"
    unfolding cats prods
    by (simp add: head_length sort_values_desc_perm(1)[OF ok] category_count product_count 2)
  from 1 2 3 4 5 6 7 8 9 10 11
  show "let sp = merge_left sales products;
         cats = category_performance (analyze_product_performance argsort sales products top_n);
         prods = product_performance (analyze_product_performance argsort sales products top_n)
     in (\<forall>s\<in>set sales. (\<forall>p\<in>set products. prod_id p \<noteq> product_id s) \<longrightarrow> (s, None) \<in> set sp) \<and>
        fst ` set sp = set sales \<and>
        name ` set (category_metrics sp) = {c. \<exists>s. (s, Some c) \<in> set sp} \<and>
        name ` set (product_metrics sp) = product_id ` set sales \<and>
        (\<forall>r\<in>set (category_metrics sp).
           total_revenue r = round2 (\<Sum>x\<leftarrow>filter (\<lambda>x. snd x = Some (name r)) sp. price (fst x)) \<and>
           items_sold r = int (length (filter (\<lambda>x. snd x = Some (name r)) sp))) \<and>
        (\<forall>r\<in>set (product_metrics sp).
           total_revenue r = round2 (\<Sum>x\<leftarrow>filter (\<lambda>x. product_id (fst x) = name r) sp. price (fst x)) \<and>
           items_sold r = int (length (filter (\<lambda>x. product_id (fst x) = name r) sp))) \<and>
        (\<exists>full. cats = head top_n full \<and> length full = length (category_metrics sp) \<and>
           set full = set (category_metrics sp) \<and>
           sorted_wrt (\<lambda>a b. total_revenue b \<le> total_revenue a) full) \<and>
        (\<exists>full. prods = head top_n full \<and> length full = length (product_metrics sp) \<and>
           set full = set (product_metrics sp) \<and>
           sorted_wrt (\<lambda>a b. total_revenue b \<le> total_revenue a) full) \<and>
        sorted_wrt (\<lambda>a b. total_revenue b \<le> total_revenue a) cats \<and>
        sorted_wrt (\<lambda>a b. total_revenue b \<le> total_revenue a) prods \<and>
        (0 \<le> top_n \<longrightarrow>
           length cats = min (nat top_n) (card {c. \<exists>s. (s, Some c) \<in> set sp}) \<and>
           length prods = min (nat top_n) (card (product_id ` set sales)))"
    unfolding Let_def sp_def[symmetric] cats_def[symmetric] prods_def[symmetric]
    by (intro conjI)
next
  show "category_performance (analyze_product_performance stable_argsort sales products top_n) =
     head top_n (sort_key (\<lambda>r. - total_revenue r) (category_metrics (merge_left sales products)))"
    by (simp add: analyze_product_performance_def Let_def sort_values_desc_stable)
next
  show "product_performance (analyze_product_performance stable_argsort sales products top_n) =
     head top_n (sort_key (\<lambda>r. - total_revenue r) (product_metrics (merge_left sales products)))"
    by (simp add: analyze_product_performance_def Let_def sort_values_desc_stable)
qed



text \<open>
  The theorem at the catalogue and its sales, \<open>top_n = 3\<close> and the stable argsort: 3 of
  the 5 categories, \<^verbatim>\<open>books\<close> before \<^verbatim>\<open>garden\<close>, and among the products \<^verbatim>\<open>P6\<close> without
  a category and \<^verbatim>\<open>P9\<close> without a catalogue entry.
\<close>

theorem product_performance_tables_witness:
  "(sale_row ''o7'' ''P9'' 77, None) \<in> set (merge_left catalog_sales catalog_example) \<and>
   length (category_performance
     (analyze_product_performance stable_argsort catalog_sales catalog_example 3)) = 3 \<and>
   length (product_performance
     (analyze_product_performance stable_argsort catalog_sales catalog_example 3)) = 3 \<and>
   sorted_wrt (\<lambda>a b. total_revenue b \<le> total_revenue a) (category_performance
     (analyze_product_performance stable_argsort catalog_sales catalog_example 3)) \<and>
   category_performance (analyze_product_performance stable_argsort catalog_sales catalog_example 3) =
     [\<lparr>name = ''toys'', total_revenue = 100, items_sold = 2, unique_orders = 2, avg_price = Fin 50\<rparr>,
      \<lparr>name = ''books'', total_revenue = 30, items_sold = 1, unique_orders = 1, avg_price = Fin 30\<rparr>,
      \<lparr>name = ''garden'', total_revenue = 30, items_sold = 1, unique_orders = 1, avg_price = Fin 30\<rparr>] \<and>
   product_performance (analyze_product_performance stable_argsort catalog_sales catalog_example 3) =
     [\<lparr>name = ''P1'', total_revenue = 100, items_sold = 2, unique_orders = 2\<rparr>,
      \<lparr>name = ''P6'', total_revenue = 99, items_sold = 1, unique_orders = 1\<rparr>,
      \<lparr>name = ''P9'', total_revenue = 77, items_sold = 1, unique_orders = 1\<rparr>]"
proof -
  let ?sp = "merge_left catalog_sales catalog_example"
  let ?R = "analyze_product_performance stable_argsort catalog_sales catalog_example 3"
  note th = product_performance_tables[of stable_argsort catalog_sales catalog_example 3,
      THEN conjunct1, rule_format, OF stable_argsort_descending, unfolded Let_def]
  note st = product_performance_tables[of stable_argsort catalog_sales catalog_example 3,
      THEN conjunct2]
  have s: "sale_row ''o7'' ''P9'' 77 \<in> set catalog_sales"
    by (simp add: catalog_sales_def)
  have u: "\<forall>p\<in>set catalog_example. prod_id p \<noteq> product_id (sale_row ''o7'' ''P9'' 77)"
    by (simp add: catalog_example_def sale_row_def)
  note r = th[THEN conjunct2, THEN conjunct2, THEN conjunct2, THEN conjunct2,
      THEN conjunct2, THEN conjunct2, THEN conjunct2, THEN conjunct2]
  have A: "(sale_row ''o7'' ''P9'' 77, None) \<in> set ?sp"
    using th[THEN conjunct1, rule_format, OF s] u by simp
  have "{c. \<exists>s. (s, Some c) \<in> set ?sp} =
      set (concat (map (\<lambda>r. case snd r of None \<Rightarrow> [] | Some c \<Rightarrow> [c]) ?sp))"
    by (simp only: category_names_list)
  also have "card \<dots> = 5" by code_simp
  finally have c5: "card {c. \<exists>s. (s, Some c) \<in> set ?sp} = 5" .
  have p7: "card (product_id ` set catalog_sales) = 7" by code_simp
  have top: "(0::int) \<le> 3" by simp
  have B: "length (category_performance ?R) = 3 \<and> length (product_performance ?R) = 3"
    using r[THEN conjunct2, THEN conjunct2, rule_format, OF top] unfolding c5 p7 by simp
  have C: "sorted_wrt (\<lambda>a b. total_revenue b \<le> total_revenue a) (category_performance ?R)"
    using r[THEN conjunct1] .
  have k: "head 3 (sort_key (\<lambda>r. - total_revenue r) (category_metrics ?sp)) =
     [\<lparr>name = ''toys'', total_revenue = 100, items_sold = 2, unique_orders = 2, avg_price = Fin 50\<rparr>,
      \<lparr>name = ''books'', total_revenue = 30, items_sold = 1, unique_orders = 1, avg_price = Fin 30\<rparr>,
      \<lparr>name = ''garden'', total_revenue = 30, items_sold = 1, unique_orders = 1, avg_price = Fin 30\<rparr>]"
    by code_simp
  have l: "head 3 (sort_key (\<lambda>r. - total_revenue r) (product_metrics ?sp)) =
     [\<lparr>name = ''P1'', total_revenue = 100, items_sold = 2, unique_orders = 2\<rparr>,
      \<lparr>name = ''P6'', total_revenue = 99, items_sold = 1, unique_orders = 1\<rparr>,
      \<lparr>name = ''P9'', total_revenue = 77, items_sold = 1, unique_orders = 1\<rparr>]"
    by code_simp
  have D: "category_performance ?R =
     [\<lparr>name = ''toys'', total_revenue = 100, items_sold = 2, unique_orders = 2, avg_price = Fin 50\<rparr>,
      \<lparr>name = ''books'', total_revenue = 30, items_sold = 1, unique_orders = 1, avg_price = Fin 30\<rparr>,
      \<lparr>name = ''garden'', total_revenue = 30, items_sold = 1, unique_orders = 1, avg_price = Fin 30\<rparr>]"
    using st[THEN conjunct1] unfolding k .
  have E: "product_performance ?R =
     [\<lparr>name = ''P1'', total_revenue = 100, items_sold = 2, unique_orders = 2\<rparr>,
      \<lparr>name = ''P6'', total_revenue = 99, items_sold = 1, unique_orders = 1\<rparr>,
      \<lparr>name = ''P9'', total_revenue = 77, items_sold = 1, unique_orders = 1\<rparr>]"
    using st[THEN conjunct2] unfolding l .
  show ?thesis
    by (intro conjI A B[THEN conjunct1] B[THEN conjunct2] C D E)
qed

text \<open>
  C6 as stated fails in two places. A sale of a product that the catalogue lacks is
  kept by the join with a missing category, and then is in no row of the category
  table: the table is empty. And the source asks for no stable sort: with an argsort
  that orders by descending value but not stably, \<^verbatim>\<open>garden\<close> comes before \<^verbatim>\<open>books\<close>,
  against their order before the sort.
\<close>

theorem null_category_rows_dropped_and_ties_unordered:
  "merge_left unlisted_sales catalog_example = [(sale_row ''o7'' ''P9'' 77, None)] \<and>
   category_performance (analyze_product_performance stable_argsort unlisted_sales catalog_example 10) = [] \<and>
   product_performance (analyze_product_performance stable_argsort unlisted_sales catalog_example 10) =
     [\<lparr>name = ''P9'', total_revenue = 77, items_sold = 1, unique_orders = 1\<rparr>] \<and>
   descending_argsort reversed_argsort \<and>
   map name (category_metrics (merge_left catalog_sales catalog_example)) =
     [''books'', ''garden'', ''music'', ''tools'', ''toys''] \<and>
   map name (category_performance
     (analyze_product_performance reversed_argsort catalog_sales catalog_example 3)) =
     [''toys'', ''garden'', ''books''] \<and>
   map total_revenue (category_performance
     (analyze_product_performance reversed_argsort catalog_sales catalog_example 3)) =
     [100, 30, 30]"
proof -
  have 1: "merge_left unlisted_sales catalog_example = [(sale_row ''o7'' ''P9'' 77, None)]"
    by code_simp
  have 2: "category_performance (analyze_product_performance stable_argsort unlisted_sales catalog_example 10) = []"
    by code_simp
  have 3: "product_performance (analyze_product_performance stable_argsort unlisted_sales catalog_example 10) =
     [\<lparr>name = ''P9'', total_revenue = 77, items_sold = 1, unique_orders = 1\<rparr>]"
    by code_simp
  have 4: "map name (category_metrics (merge_left catalog_sales catalog_example)) =
     [''books'', ''garden'', ''music'', ''tools'', ''toys'']"
    by code_simp
  have 5: "map name (category_performance
     (analyze_product_performance reversed_argsort catalog_sales catalog_example 3)) =
     [''toys'', ''garden'', ''books'']"
    by code_simp
  have 6: "map total_revenue (category_performance
     (analyze_product_performance reversed_argsort catalog_sales catalog_example 3)) =
     [100, 30, 30]"
    by code_simp
  from 1 2 3 reversed_argsort_descending 4 5 6 show ?thesis by blast
qed

end
